theory Spec2Isabelle
  imports Complex_Main
begin

section \<open>Floating-point results\<close>

text \<open>
  The arrays of the extraction (the channels of a cycle and their resampled values) are
  modelled as lists of \<open>real\<close>: exact arithmetic on finite numbers. A value that NumPy
  or TensorFlow computes and that need not be a finite number (a quotient, a loss, a
  metric) has type \<open>fl\<close>: a finite number, one of the two infinities, or NaN. Dividing
  by zero in NumPy raises nothing: it warns and returns an infinity or NaN. The sign of
  a zero is not modelled.
\<close>

datatype fl = Fin real | PInf | MInf | NaN

text \<open>\<open>a < b\<close> on floats: false as soon as one side is NaN.\<close>

fun fl_less :: "fl \<Rightarrow> fl \<Rightarrow> bool" where
  "fl_less NaN _ = False"
| "fl_less _ NaN = False"
| "fl_less (Fin a) (Fin b) = (a < b)"
| "fl_less (Fin _) PInf = True"
| "fl_less (Fin _) MInf = False"
| "fl_less PInf _ = False"
| "fl_less MInf MInf = False"
| "fl_less MInf _ = True"

fun fl_add :: "fl \<Rightarrow> fl \<Rightarrow> fl" where
  "fl_add NaN _ = NaN"
| "fl_add _ NaN = NaN"
| "fl_add (Fin a) (Fin b) = Fin (a + b)"
| "fl_add PInf MInf = NaN"
| "fl_add MInf PInf = NaN"
| "fl_add PInf _ = PInf"
| "fl_add MInf _ = MInf"
| "fl_add (Fin _) PInf = PInf"
| "fl_add (Fin _) MInf = MInf"

text \<open>Division of a float by a positive count, as \<open>np.mean\<close> does after summing.\<close>

fun fl_div_count :: "fl \<Rightarrow> nat \<Rightarrow> fl" where
  "fl_div_count (Fin a) n = Fin (a / real n)"
| "fl_div_count x n = x"

text \<open>\<open>a / b\<close> on two finite floats (NumPy's true division).\<close>

definition np_divide :: "real \<Rightarrow> real \<Rightarrow> fl" where
  "np_divide a b =
     (if b \<noteq> 0 then Fin (a / b)
      else if a = 0 then NaN
      else if 0 < a then PInf
      else MInf)"

text \<open>\<open>c - x\<close> for a finite constant \<open>c\<close> and a float \<open>x\<close>.\<close>

fun fl_rsub :: "real \<Rightarrow> fl \<Rightarrow> fl" where
  "fl_rsub c (Fin a) = Fin (c - a)"
| "fl_rsub c PInf = MInf"
| "fl_rsub c MInf = PInf"
| "fl_rsub c NaN = NaN"

text \<open>\<open>np.mean\<close> of a list of floats: NaN (with a warning) when the list is empty.\<close>

definition np_mean_fl :: "fl list \<Rightarrow> fl" where
  "np_mean_fl xs =
     (if xs = [] then NaN else fl_div_count (foldl fl_add (Fin 0) xs) (length xs))"

text \<open>A float is a state of charge when it is a finite number of the unit interval.\<close>

fun in_unit :: "fl \<Rightarrow> bool" where
  "in_unit (Fin a) = (0 \<le> a \<and> a \<le> 1)"
| "in_unit _ = False"

datatype py_error =
    TypeError
  | AttributeError
  | ValueError
  | UnboundLocalError
  | InvalidArgumentError
  | FileNotFoundError string

section \<open>Float arithmetic with rounding\<close>

text \<open>
  The coulomb counter, the losses and the metrics compute with floats (doubles in
  NumPy, \<open>float32\<close> in TensorFlow). Their arithmetic is the IEEE arithmetic on \<open>fl\<close>,
  where the result of an operation on two finite numbers is the exact result rounded.
  The rounding is a parameter \<open>rnd\<close> of the model: it maps the exact result to the float
  that the format returns for it, a finite number or, on overflow, an infinity. What a
  theorem needs of the rounding is stated as a hypothesis, so that it holds for the
  rounding of the format. A zero stands for the zero of either sign; a division by it
  returns the infinity of the sign of the dividend, as for the positive zero.
\<close>

type_synonym rounding = "real \<Rightarrow> fl"

fun fneg :: "fl \<Rightarrow> fl" where
  "fneg (Fin a) = Fin (- a)"
| "fneg PInf = MInf"
| "fneg MInf = PInf"
| "fneg NaN = NaN"

fun fadd :: "rounding \<Rightarrow> fl \<Rightarrow> fl \<Rightarrow> fl" where
  "fadd rnd NaN _ = NaN"
| "fadd rnd _ NaN = NaN"
| "fadd rnd (Fin a) (Fin b) = rnd (a + b)"
| "fadd rnd PInf MInf = NaN"
| "fadd rnd MInf PInf = NaN"
| "fadd rnd PInf _ = PInf"
| "fadd rnd MInf _ = MInf"
| "fadd rnd (Fin _) PInf = PInf"
| "fadd rnd (Fin _) MInf = MInf"

definition fsub :: "rounding \<Rightarrow> fl \<Rightarrow> fl \<Rightarrow> fl" where
  "fsub rnd a b = fadd rnd a (fneg b)"

text \<open>The infinity of the sign of a finite number that is not zero; NaN for zero.\<close>

definition inf_of_sign :: "real \<Rightarrow> fl" where
  "inf_of_sign a = (if a = 0 then NaN else if 0 < a then PInf else MInf)"

fun fmul :: "rounding \<Rightarrow> fl \<Rightarrow> fl \<Rightarrow> fl" where
  "fmul rnd NaN _ = NaN"
| "fmul rnd _ NaN = NaN"
| "fmul rnd (Fin a) (Fin b) = rnd (a * b)"
| "fmul rnd (Fin a) PInf = inf_of_sign a"
| "fmul rnd (Fin a) MInf = inf_of_sign (- a)"
| "fmul rnd PInf (Fin b) = inf_of_sign b"
| "fmul rnd MInf (Fin b) = inf_of_sign (- b)"
| "fmul rnd PInf PInf = PInf"
| "fmul rnd PInf MInf = MInf"
| "fmul rnd MInf PInf = MInf"
| "fmul rnd MInf MInf = PInf"

fun fdiv :: "rounding \<Rightarrow> fl \<Rightarrow> fl \<Rightarrow> fl" where
  "fdiv rnd NaN _ = NaN"
| "fdiv rnd _ NaN = NaN"
| "fdiv rnd (Fin a) (Fin b) = (if b = 0 then inf_of_sign a else rnd (a / b))"
| "fdiv rnd (Fin a) PInf = Fin 0"
| "fdiv rnd (Fin a) MInf = Fin 0"
| "fdiv rnd PInf (Fin b) = (if 0 \<le> b then PInf else MInf)"
| "fdiv rnd MInf (Fin b) = (if 0 \<le> b then MInf else PInf)"
| "fdiv rnd PInf PInf = NaN"
| "fdiv rnd PInf MInf = NaN"
| "fdiv rnd MInf PInf = NaN"
| "fdiv rnd MInf MInf = NaN"

fun fsqrt :: "rounding \<Rightarrow> fl \<Rightarrow> fl" where
  "fsqrt rnd (Fin a) = (if a < 0 then NaN else rnd (sqrt a))"
| "fsqrt rnd PInf = PInf"
| "fsqrt rnd MInf = NaN"
| "fsqrt rnd NaN = NaN"

fun fabs :: "fl \<Rightarrow> fl" where
  "fabs (Fin a) = Fin (abs a)"
| "fabs PInf = PInf"
| "fabs MInf = PInf"
| "fabs NaN = NaN"

text \<open>
  A rounding to test with: exact below the bound \<open>B\<close>, an infinity from \<open>B\<close> on. The
  rounding to nearest of a binary format agrees with it on every number of the format
  and on every number of magnitude \<open>B\<close> or more, for \<open>B\<close> the power of two above the
  largest finite number: \<open>2 ^ 1024\<close> for doubles, \<open>2 ^ 128\<close> for \<open>float32\<close>.
\<close>

definition overflow_round :: "real \<Rightarrow> rounding" where
  "overflow_round B x = (if B \<le> x then PInf else if x \<le> - B then MInf else Fin x)"

definition round64 :: rounding where
  "round64 = overflow_round (2 ^ 1024)"

definition round32 :: rounding where
  "round32 = overflow_round (2 ^ 128)"

section \<open>Series resampling (\<open>anchor_resample\<close>)\<close>

definition np_zeros :: "nat \<Rightarrow> real list" where
  "np_zeros n = replicate n 0"

definition np_full :: "nat \<Rightarrow> real \<Rightarrow> real list" where
  "np_full n v = replicate n v"

text \<open>
  \<open>np.linspace(start, stop, num)\<close> with the end point included: \<open>num\<close> evenly spaced
  samples, a single sample being \<open>start\<close>.
\<close>

definition np_linspace :: "real \<Rightarrow> real \<Rightarrow> nat \<Rightarrow> real list" where
  "np_linspace start stop num =
     (if num = 0 then []
      else if num = 1 then [start]
      else map (\<lambda>i. start + real i * ((stop - start) / real (num - 1))) [0..<num])"

text \<open>
  \<open>np.interp(x, xp, fp)\<close> at one point, for increasing sample points \<open>xp\<close>: left of the
  first sample point the first value, right of the last one the last value, and between
  two neighbours the straight line through them. \<open>interp_from x x0 f0 xp fp\<close> has passed
  the sample \<open>(x0, f0)\<close> and knows \<open>x0 \<le> x\<close>.
\<close>

fun interp_from :: "real \<Rightarrow> real \<Rightarrow> real \<Rightarrow> real list \<Rightarrow> real list \<Rightarrow> real" where
  "interp_from x x0 f0 (x1 # xp) (f1 # fp) =
     (if x < x1 then f0 + (f1 - f0) / (x1 - x0) * (x - x0)
      else interp_from x x1 f1 xp fp)"
| "interp_from x x0 f0 _ _ = f0"

text \<open>
  NumPy raises \<open>ValueError\<close> for an empty \<open>xp\<close> and for an \<open>fp\<close> of another length;
  \<open>anchor_resample\<close> calls it with two arrays of one length, at least 2, only. The value
  0 stands for the cases that are never reached.
\<close>

fun interp_at :: "real list \<Rightarrow> real list \<Rightarrow> real \<Rightarrow> real" where
  "interp_at (x0 # xp) (f0 # fp) x = (if x \<le> x0 then f0 else interp_from x x0 f0 xp fp)"
| "interp_at _ _ x = 0"

definition np_interp :: "real list \<Rightarrow> real list \<Rightarrow> real list \<Rightarrow> real list" where
  "np_interp xs xp fp = map (interp_at xp fp) xs"

text \<open>\<open>anchor_resample(x, num_points)\<close>, for a sized array \<open>x\<close> (one that has a \<open>len\<close>).\<close>

definition anchor_resample :: "real list \<Rightarrow> nat \<Rightarrow> real list" where
  "anchor_resample x num_points =
     (if length x = 0 then np_zeros num_points
      else if length x = 1 then np_full num_points (x ! 0)
      else
        let original_indices = np_linspace 0 (real (length x - 1)) (length x);
            target_indices = np_linspace 0 (real (length x - 1)) num_points
        in np_interp target_indices original_indices x)"

section \<open>Coulomb counting (\<open>simple_ecm\<close>)\<close>

text \<open>
  \<open>np.clip(a, lo, hi)\<close> for finite bounds is \<open>minimum(maximum(a, lo), hi)\<close>; both keep a
  NaN.
\<close>

fun np_clip :: "fl \<Rightarrow> real \<Rightarrow> real \<Rightarrow> fl" where
  "np_clip (Fin a) lo hi = Fin (min hi (max a lo))"
| "np_clip PInf lo hi = Fin hi"
| "np_clip MInf lo hi = Fin (min hi lo)"
| "np_clip NaN lo hi = NaN"

text \<open>
  The loop of \<open>simple_ecm\<close>: \<open>soc\<close> is the running state of charge, \<open>soc_profile\<close> the
  values appended so far. The samples are the doubles of a NumPy array, the time step
  and the capacity are doubles: a product that overflows is an infinity, and the
  division of a NumPy double by a zero warns and returns an infinity or NaN.
\<close>

fun ecm_loop :: "rounding \<Rightarrow> fl \<Rightarrow> fl \<Rightarrow> fl list \<Rightarrow> fl \<Rightarrow> fl list \<Rightarrow> fl list" where
  "ecm_loop rnd delta_t capacity [] soc soc_profile = soc_profile"
| "ecm_loop rnd delta_t capacity (c # current) soc soc_profile =
     (let soc1 = fsub rnd soc (fdiv rnd (fmul rnd c delta_t) (fmul rnd capacity (Fin 3600)));
          soc2 = np_clip soc1 0 1
      in ecm_loop rnd delta_t capacity current soc2 (soc_profile @ [soc2]))"

definition simple_ecm :: "rounding \<Rightarrow> fl list \<Rightarrow> fl \<Rightarrow> fl \<Rightarrow> fl list" where
  "simple_ecm rnd current delta_t capacity = ecm_loop rnd delta_t capacity current (Fin 1) []"

section \<open>Losses (\<open>mse_loss\<close>, \<open>physics_informed_loss\<close>)\<close>

text \<open>
  A tensor is the list of its \<open>float32\<close> elements in storage order. The trainer calls
  the losses on tensors of one shape (batch, points, 1), so the element-wise operations
  pair the elements by position. TensorFlow fixes no order for the summation of
  \<open>tf.reduce_mean\<close>, so the reduction is a parameter \<open>mean\<close> of the model: the function
  from a tensor to the float that \<open>tf.reduce_mean\<close> returns for it.
\<close>

definition tf_square :: "rounding \<Rightarrow> fl \<Rightarrow> fl" where
  "tf_square rnd a = fmul rnd a a"

fun relu :: "fl \<Rightarrow> fl" where
  "relu (Fin a) = Fin (max a 0)"
| "relu PInf = PInf"
| "relu MInf = Fin 0"
| "relu NaN = NaN"

definition mse_loss :: "rounding \<Rightarrow> (fl list \<Rightarrow> fl) \<Rightarrow> fl list \<Rightarrow> fl list \<Rightarrow> fl" where
  "mse_loss rnd mean y_true y_pred = mean (map (tf_square rnd) (map2 (fsub rnd) y_true y_pred))"

text \<open>The three terms of the physics-informed loss, each a mean over a tensor.\<close>

definition mse_term :: "rounding \<Rightarrow> (fl list \<Rightarrow> fl) \<Rightarrow> fl list \<Rightarrow> fl list \<Rightarrow> fl" where
  "mse_term rnd mean y_true y_pred = mean (map (tf_square rnd) (map2 (fsub rnd) y_pred y_true))"

definition coulomb_term :: "rounding \<Rightarrow> (fl list \<Rightarrow> fl) \<Rightarrow> fl list \<Rightarrow> fl list \<Rightarrow> fl" where
  "coulomb_term rnd mean y_pred ecm_soc =
     mean (map (tf_square rnd) (map2 (fsub rnd) y_pred ecm_soc))"

definition boundary_term :: "rounding \<Rightarrow> (fl list \<Rightarrow> fl) \<Rightarrow> fl list \<Rightarrow> fl" where
  "boundary_term rnd mean y_pred =
     mean (map (\<lambda>p. fadd rnd (relu (fsub rnd p (Fin 1))) (relu (fsub rnd (Fin 0) p))) y_pred)"

definition physics_informed_loss ::
  "rounding \<Rightarrow> (fl list \<Rightarrow> fl) \<Rightarrow> fl list \<Rightarrow> fl list \<Rightarrow> fl list \<Rightarrow> fl \<Rightarrow> fl \<Rightarrow> fl" where
  "physics_informed_loss rnd mean y_true y_pred ecm_soc alpha beta =
     (let mse = mse_term rnd mean y_true y_pred;
          coulomb = coulomb_term rnd mean y_pred ecm_soc;
          boundary = boundary_term rnd mean y_pred
      in fadd rnd (fadd rnd mse (fmul rnd alpha coulomb)) (fmul rnd beta boundary))"

text \<open>
  A reduction to test with: the sum from left to right, each step rounded, over the
  number of elements; NaN for the empty tensor.
\<close>

definition seq_sum :: "rounding \<Rightarrow> fl list \<Rightarrow> fl" where
  "seq_sum rnd t = foldl (fadd rnd) (Fin 0) t"

definition seq_mean :: "rounding \<Rightarrow> fl list \<Rightarrow> fl" where
  "seq_mean rnd t = fdiv rnd (seq_sum rnd t) (Fin (real (length t)))"

section \<open>Cycle extraction (\<open>process_battery\<close>, \<open>preprocess_and_save_csv\<close>)\<close>

definition MAX_CYCLES :: nat where
  "MAX_CYCLES = 1000"

text \<open>
  The data block of a cycle maps a field name to the numeric vector stored under it
  (\<open>loadmat\<close> delivers a MATLAB vector of \<open>k\<close> samples; a dictionary keeps one value per
  key, so the first binding of a key is the one that counts).
\<close>

type_synonym data_block = "(string \<times> real list) list"

text \<open>
  The \<open>data\<close> field of a cycle: a struct (a dictionary after conversion), or a value of
  another kind, which has no \<open>get\<close>.
\<close>

datatype data_field = NotAStruct | Struct data_block

text \<open>
  A cycle entry after \<open>mat_struct_to_dict\<close>: a dictionary whose keys may be absent
  (\<open>None\<close>), read with \<open>c.get(key, default)\<close>.
\<close>

record cycle =
  c_type :: "string option"
  c_index :: "int option"
  c_time :: "string option"
  c_ambient_temperature :: "real option"
  c_data :: "data_field option"

text \<open>An element of the cycle collection that is no dictionary has no \<open>get\<close>.\<close>

datatype entry = NotADict | Cycle cycle

text \<open>
  The \<open>cycle\<close> field of a battery record: absent, a value that cannot be iterated (a
  number), a single struct (a dictionary after conversion), or an array.
\<close>

datatype cycles_field = NoCycleField | NotIterable | OneCycle cycle | CycleList "entry list"

text \<open>What the record store holds at the path of a battery.\<close>

datatype mat_file = NotFound | LoadFailed | Loaded cycles_field

record discharge_meta =
  cutoff_voltage :: "real option"
  discharge_type :: "string option"
  discharge_amplitude :: "real option"
  discharge_frequency :: "real option"
  discharge_dutycycle :: "real option"

text \<open>
  The \<open>discharge\<close> entry of the metadata of a battery: a mapping, or a value of another
  kind (\<open>null\<close> in the YAML file, a number, a string), which has no \<open>get\<close>.
\<close>

datatype discharge_field = NoMapping | Params discharge_meta

record battery_meta =
  usable :: "bool option"
  sub_dir :: string
  c0 :: "real option"
  fade_in_percent :: "real option"
  discharge :: "discharge_field option"

text \<open>
  One row of the CSV file. The columns \<open>voltage_j\<close>, \<open>current_j\<close>, \<open>temperature_j\<close>,
  \<open>time_j\<close> and \<open>soc_j\<close> for \<open>j\<close> below \<open>num_points\<close> are the elements of five
  arrays of that length, kept here as lists.
\<close>

record row =
  r_battery_id :: string
  r_cycle_id :: int
  r_time_cycle_start :: string
  r_ambient_temperature :: fl
  r_capacity_k :: fl
  r_cap_0 :: fl
  r_fade :: fl
  r_cutoff_voltage :: fl
  r_discharge_type :: string
  r_discharge_amplitude :: fl
  r_discharge_frequency :: fl
  r_discharge_dutycycle :: fl
  r_voltage :: "real list"
  r_current :: "real list"
  r_temperature :: "real list"
  r_time :: "real list"
  r_soc :: "fl list"

text \<open>\<open>str.lower()\<close> on the ASCII letters; every other character stays.\<close>

definition ascii_lower :: "char \<Rightarrow> char" where
  "ascii_lower ch =
     (case map_of (zip ''ABCDEFGHIJKLMNOPQRSTUVWXYZ'' ''abcdefghijklmnopqrstuvwxyz'') ch of
        Some l \<Rightarrow> l
      | None \<Rightarrow> ch)"

definition str_lower :: "string \<Rightarrow> string" where
  "str_lower s = map ascii_lower s"

text \<open>
  An array after \<open>np.squeeze\<close>: the axes of length one are removed, so a vector of a
  single sample becomes an array of dimension zero, which has no \<open>len\<close>.
\<close>

datatype ndarray = ZeroDim real | OneDim "real list"

definition np_squeeze :: "real list \<Rightarrow> ndarray" where
  "np_squeeze v = (if length v = 1 then ZeroDim (v ! 0) else OneDim v)"

fun py_len :: "ndarray \<Rightarrow> py_error + nat" where
  "py_len (ZeroDim _) = Inl TypeError"
| "py_len (OneDim v) = Inr (length v)"

text \<open>\<open>anchor_resample\<close> on what \<open>np.squeeze\<close> returned: its first step is \<open>len(x)\<close>.\<close>

fun resample_array :: "ndarray \<Rightarrow> nat \<Rightarrow> py_error + real list" where
  "resample_array (ZeroDim _) num_points = Inl TypeError"
| "resample_array (OneDim v) num_points = Inr (anchor_resample v num_points)"

text \<open>\<open>dat.get(k1, dat.get(k2, np.array([])))\<close>\<close>

definition get_channel :: "data_block \<Rightarrow> string \<Rightarrow> string \<Rightarrow> real list" where
  "get_channel dat k1 k2 =
     (case map_of dat k1 of
        Some v \<Rightarrow> v
      | None \<Rightarrow> (case map_of dat k2 of Some v \<Rightarrow> v | None \<Rightarrow> []))"

text \<open>
  \<open>float(np.ravel(cap_k)[0])\<close> of \<open>dat.get("Capacity", np.nan)\<close>: the first element, NaN
  when the field is absent and (through the \<open>except\<close>) when it is empty.
\<close>

definition parse_capacity :: "data_block \<Rightarrow> fl" where
  "parse_capacity dat =
     (case map_of dat ''Capacity'' of
        None \<Rightarrow> NaN
      | Some [] \<Rightarrow> NaN
      | Some (x # _) \<Rightarrow> Fin x)"

definition or_nan :: "real option \<Rightarrow> fl" where
  "or_nan v = (case v of None \<Rightarrow> NaN | Some x \<Rightarrow> Fin x)"

text \<open>\<open>soc_r = 1.0 - time_r / (time_r[-1] if len(time_r) > 0 else 1.0)\<close>\<close>

definition soc_from_time :: "real list \<Rightarrow> fl list" where
  "soc_from_time time_r =
     (let d = (if length time_r > 0 then last time_r else 1)
      in map (\<lambda>t. fl_rsub 1 (np_divide t d)) time_r)"

text \<open>
  \<open>battery_meta.get('discharge', {})\<close>, on which the row reads five parameters with
  \<open>get\<close>: the empty mapping when the entry is absent, \<open>AttributeError\<close> when it is no
  mapping.
\<close>

definition no_params :: discharge_meta where
  "no_params =
     \<lparr>cutoff_voltage = None, discharge_type = None, discharge_amplitude = None,
      discharge_frequency = None, discharge_dutycycle = None\<rparr>"

definition discharge_params :: "battery_meta \<Rightarrow> py_error + discharge_meta" where
  "discharge_params meta =
     (case discharge meta of
        None \<Rightarrow> Inr no_params
      | Some NoMapping \<Rightarrow> Inl AttributeError
      | Some (Params d) \<Rightarrow> Inr d)"

text \<open>
  The row of an accepted cycle, from its four resampled channels and the discharge
  parameters \<open>dis\<close> of the battery.
\<close>

definition make_row ::
  "string \<Rightarrow> battery_meta \<Rightarrow> discharge_meta \<Rightarrow> nat \<Rightarrow> cycle \<Rightarrow> fl \<Rightarrow>
   real list \<Rightarrow> real list \<Rightarrow> real list \<Rightarrow> real list \<Rightarrow> row" where
  "make_row battery_id meta dis i c cap_k voltage_r current_r temperature_r time_r =
     \<lparr>r_battery_id = battery_id,
      r_cycle_id = (case c_index c of None \<Rightarrow> int i | Some k \<Rightarrow> k),
      r_time_cycle_start = (case c_time c of None \<Rightarrow> ''N/A'' | Some t \<Rightarrow> t),
      r_ambient_temperature = or_nan (c_ambient_temperature c),
      r_capacity_k = cap_k,
      r_cap_0 = or_nan (c0 meta),
      r_fade = or_nan (fade_in_percent meta),
      r_cutoff_voltage = or_nan (cutoff_voltage dis),
      r_discharge_type = (case discharge_type dis of None \<Rightarrow> [] | Some t \<Rightarrow> t),
      r_discharge_amplitude = or_nan (discharge_amplitude dis),
      r_discharge_frequency = or_nan (discharge_frequency dis),
      r_discharge_dutycycle = or_nan (discharge_dutycycle dis),
      r_voltage = voltage_r,
      r_current = current_r,
      r_temperature = temperature_r,
      r_time = time_r,
      r_soc = soc_from_time time_r\<rparr>"

text \<open>
  The body of the loop over the cycles, for the entry \<open>e\<close> at position \<open>i\<close>: \<open>Inr None\<close>
  is \<open>continue\<close>, \<open>Inr (Some row)\<close> the row that is appended, \<open>Inl\<close> an exception that
  leaves \<open>process_battery\<close>. The first \<open>dat.get\<close> raises \<open>AttributeError\<close> when the
  \<open>data\<close> field is no struct. In \<open>len(voltage) < 5 or len(current) < 5\<close> the second
  length is taken only when the first test is false. The discharge parameters of the
  battery are read when the row is built, after the four channels are resampled.
\<close>

definition process_cycle ::
  "string \<Rightarrow> battery_meta \<Rightarrow> nat \<Rightarrow> nat \<Rightarrow> entry \<Rightarrow> py_error + row option" where
  "process_cycle battery_id meta num_points i e =
     (case e of
        NotADict \<Rightarrow> Inr None
      | Cycle c \<Rightarrow>
          (let cyc_type = str_lower (case c_type c of None \<Rightarrow> [] | Some t \<Rightarrow> t) in
           if cyc_type \<noteq> ''discharge'' then Inr None
           else
            (case c_data c of
               Some NotAStruct \<Rightarrow> Inl AttributeError
             | data \<Rightarrow>
            (let dat = (case data of Some (Struct d) \<Rightarrow> d | _ \<Rightarrow> []);
                 voltage = np_squeeze (get_channel dat ''Voltage_measured'' ''voltage'');
                 current = np_squeeze (get_channel dat ''Current_measured'' ''current'');
                 temperature = np_squeeze (get_channel dat ''Temperature_measured'' ''temperature'');
                 time = np_squeeze (get_channel dat ''Time'' ''time'');
                 cap_k = parse_capacity dat
             in
              (case py_len voltage of
                 Inl err \<Rightarrow> Inl err
               | Inr len_v \<Rightarrow>
                  (if len_v < 5 then Inr None
                   else
                    (case py_len current of
                       Inl err \<Rightarrow> Inl err
                     | Inr len_c \<Rightarrow>
                        (if len_c < 5 then Inr None
                         else
                          (case resample_array voltage num_points of
                             Inl err \<Rightarrow> Inl err
                           | Inr voltage_r \<Rightarrow>
                          (case resample_array current num_points of
                             Inl err \<Rightarrow> Inl err
                           | Inr current_r \<Rightarrow>
                          (case resample_array temperature num_points of
                             Inl err \<Rightarrow> Inl err
                           | Inr temperature_r \<Rightarrow>
                          (case resample_array time num_points of
                             Inl err \<Rightarrow> Inl err
                           | Inr time_r \<Rightarrow>
                          (case discharge_params meta of
                             Inl err \<Rightarrow> Inl err
                           | Inr dis \<Rightarrow>
                               Inr (Some (make_row battery_id meta dis i c cap_k
                                            voltage_r current_r temperature_r
                                            time_r)))))))))))))))"

text \<open>
  The loop \<open>for i, c in enumerate(cycles)\<close>, from position \<open>i\<close> on, with the rows
  appended so far; it breaks once \<open>MAX_CYCLES\<close> rows are there.
\<close>

fun process_cycles ::
  "string \<Rightarrow> battery_meta \<Rightarrow> nat \<Rightarrow> nat \<Rightarrow> entry list \<Rightarrow> row list \<Rightarrow> py_error + row list" where
  "process_cycles battery_id meta num_points i [] results = Inr results"
| "process_cycles battery_id meta num_points i (e # cycles) results =
     (case process_cycle battery_id meta num_points i e of
        Inl err \<Rightarrow> Inl err
      | Inr None \<Rightarrow> process_cycles battery_id meta num_points (i + 1) cycles results
      | Inr (Some row) \<Rightarrow>
          let results1 = results @ [row] in
          if length results1 \<ge> MAX_CYCLES then Inr results1
          else process_cycles battery_id meta num_points (i + 1) cycles results1)"

text \<open>
  \<open>process_battery\<close>; \<open>base_path\<close> is the record store, read at the sub-directory and the
  identifier of the battery. A file that is missing or fails to load, and a record
  with no \<open>cycle\<close> field, give no rows; \<open>enumerate\<close> of a \<open>cycle\<close> field that cannot
  be iterated raises \<open>TypeError\<close>.
\<close>

definition process_battery ::
  "string \<Rightarrow> battery_meta \<Rightarrow> (string \<Rightarrow> string \<Rightarrow> mat_file) \<Rightarrow> nat \<Rightarrow> py_error + row list" where
  "process_battery battery_id meta base_path num_points =
     (case base_path (sub_dir meta) battery_id of
        NotFound \<Rightarrow> Inr []
      | LoadFailed \<Rightarrow> Inr []
      | Loaded NoCycleField \<Rightarrow> Inr []
      | Loaded NotIterable \<Rightarrow> Inl TypeError
      | Loaded (OneCycle c) \<Rightarrow> process_cycles battery_id meta num_points 0 [Cycle c] []
      | Loaded (CycleList cycles) \<Rightarrow> process_cycles battery_id meta num_points 0 cycles [])"

text \<open>
  The loop of \<open>preprocess_and_save_csv\<close> over \<open>batteries.items()\<close>, in the order of the
  metadata file, with the rows collected so far.
\<close>

fun extract_batteries ::
  "(string \<Rightarrow> string \<Rightarrow> mat_file) \<Rightarrow> nat \<Rightarrow> nat \<Rightarrow> (string \<times> battery_meta) list \<Rightarrow>
   row list \<Rightarrow> py_error + row list" where
  "extract_batteries mat_dir num_points max_cycles [] all_data = Inr all_data"
| "extract_batteries mat_dir num_points max_cycles ((battery_id, meta) # batteries) all_data =
     (if \<not> (case usable meta of None \<Rightarrow> True | Some u \<Rightarrow> u)
      then extract_batteries mat_dir num_points max_cycles batteries all_data
      else
        case process_battery battery_id meta mat_dir num_points of
          Inl err \<Rightarrow> Inl err
        | Inr data_rows \<Rightarrow>
            let all_data1 = all_data @ data_rows in
            if length all_data1 \<ge> max_cycles then Inr all_data1
            else extract_batteries mat_dir num_points max_cycles batteries all_data1)"

text \<open>\<open>preprocess_and_save_csv\<close>: the result is the list of rows written to the CSV file.\<close>

definition preprocess_and_save_csv ::
  "(string \<Rightarrow> string \<Rightarrow> mat_file) \<Rightarrow> (string \<times> battery_meta) list \<Rightarrow> nat \<Rightarrow> nat \<Rightarrow>
   py_error + row list" where
  "preprocess_and_save_csv mat_dir batteries num_points max_cycles =
     extract_batteries mat_dir num_points max_cycles batteries []"

section \<open>Trainer (\<open>train_model\<close>)\<close>

text \<open>
  The file that \<open>train_model(model, ..., loss_type, ecm_in, ...)\<close> saves the best
  weights to and loads them from, for a model named \<open>model_name\<close>:
  \<open>f'best_{loss_type}_{model.name}.weights.h5'\<close>. The composition flag \<open>ecm_in\<close> is an
  argument of the run and does not occur in the name.
\<close>

definition checkpoint_path :: "string \<Rightarrow> bool \<Rightarrow> string \<Rightarrow> string" where
  "checkpoint_path loss_type ecm_in model_name =
     ''best_'' @ loss_type @ ''_'' @ model_name @ ''.weights.h5''"

text \<open>
  The network, the optimizer and the float arithmetic of TensorFlow are parameters of
  the model. For the loss kind and the composition flag of the run,
  \<open>fit loss_type ecm_in w opt b\<close> is one training step on the batch \<open>b\<close> (forward pass,
  loss, gradient, Adam update): the new weights, the new optimizer state and the loss
  value of the batch; \<open>vloss loss_type ecm_in w b\<close> is the loss value of a validation
  batch under the weights \<open>w\<close>. A loss value is a float and may be NaN or infinite.
  A loss kind other than \<open>mse\<close> and \<open>physics\<close> takes neither branch of the \<open>if\<close>, and
  the first use of \<open>loss\<close> raises \<open>UnboundLocalError\<close>.
\<close>

fun train_batches ::
  "(string \<Rightarrow> bool \<Rightarrow> 'w \<Rightarrow> 'o \<Rightarrow> 'b \<Rightarrow> 'w \<times> 'o \<times> fl) \<Rightarrow> string \<Rightarrow> bool \<Rightarrow>
   'b list \<Rightarrow> 'w \<Rightarrow> 'o \<Rightarrow> fl list \<Rightarrow> py_error + ('w \<times> 'o \<times> fl list)" where
  "train_batches fit loss_type ecm_in [] w opt train_losses = Inr (w, opt, train_losses)"
| "train_batches fit loss_type ecm_in (b # train_ds) w opt train_losses =
     (if loss_type = ''mse'' \<or> loss_type = ''physics'' then
        (case fit loss_type ecm_in w opt b of
           (w1, opt1, loss) \<Rightarrow>
             train_batches fit loss_type ecm_in train_ds w1 opt1 (train_losses @ [loss]))
      else Inl UnboundLocalError)"

fun val_batches ::
  "(string \<Rightarrow> bool \<Rightarrow> 'w \<Rightarrow> 'b \<Rightarrow> fl) \<Rightarrow> string \<Rightarrow> bool \<Rightarrow>
   'b list \<Rightarrow> 'w \<Rightarrow> fl list \<Rightarrow> py_error + fl list" where
  "val_batches vloss loss_type ecm_in [] w val_losses = Inr val_losses"
| "val_batches vloss loss_type ecm_in (b # val_ds) w val_losses =
     (if loss_type = ''mse'' \<or> loss_type = ''physics'' then
        val_batches vloss loss_type ecm_in val_ds w (val_losses @ [vloss loss_type ecm_in w b])
      else Inl UnboundLocalError)"

text \<open>
  The state of a run: the parameters of the model, the optimizer, the best validation
  loss so far, the two histories, and the files of the checkpoint directory (a path
  with no file is \<open>None\<close>).
\<close>

record ('w, 'o) trainer =
  t_weights :: 'w
  t_opt :: 'o
  best_val_loss :: fl
  train_loss_history :: "fl list"
  val_loss_history :: "fl list"
  files :: "string \<Rightarrow> 'w option"

text \<open>
  The end of an epoch: the two means go to the histories, and the weights are saved
  when the mean validation loss is below the best one so far.
\<close>

definition end_of_epoch ::
  "string \<Rightarrow> fl \<Rightarrow> fl \<Rightarrow> ('w, 'o) trainer \<Rightarrow> ('w, 'o) trainer" where
  "end_of_epoch path avg_train_loss avg_val_loss st =
     (let st1 = st\<lparr>train_loss_history := train_loss_history st @ [avg_train_loss],
                   val_loss_history := val_loss_history st @ [avg_val_loss]\<rparr>
      in if fl_less avg_val_loss (best_val_loss st1)
         then st1\<lparr>best_val_loss := avg_val_loss,
                  files := (files st1)(path \<mapsto> t_weights st1)\<rparr>
         else st1)"

text \<open>One epoch: the training batches, the validation batches, the end of the epoch.\<close>

definition run_epoch ::
  "(string \<Rightarrow> bool \<Rightarrow> 'w \<Rightarrow> 'o \<Rightarrow> 'b \<Rightarrow> 'w \<times> 'o \<times> fl) \<Rightarrow>
   (string \<Rightarrow> bool \<Rightarrow> 'w \<Rightarrow> 'b \<Rightarrow> fl) \<Rightarrow> string \<Rightarrow> 'b list \<Rightarrow> 'b list \<Rightarrow>
   string \<Rightarrow> bool \<Rightarrow> ('w, 'o) trainer \<Rightarrow> py_error + ('w, 'o) trainer" where
  "run_epoch fit vloss model_name train_ds val_ds loss_type ecm_in st =
     (case train_batches fit loss_type ecm_in train_ds (t_weights st) (t_opt st) [] of
        Inl err \<Rightarrow> Inl err
      | Inr (w1, opt1, train_losses) \<Rightarrow>
          (case val_batches vloss loss_type ecm_in val_ds w1 [] of
             Inl err \<Rightarrow> Inl err
           | Inr val_losses \<Rightarrow>
               Inr (end_of_epoch (checkpoint_path loss_type ecm_in model_name)
                      (np_mean_fl train_losses) (np_mean_fl val_losses)
                      (st\<lparr>t_weights := w1, t_opt := opt1\<rparr>))))"

text \<open>The loop \<open>for epoch in range(epochs)\<close>, with the number of epochs still to run.\<close>

fun train_epochs ::
  "(string \<Rightarrow> bool \<Rightarrow> 'w \<Rightarrow> 'o \<Rightarrow> 'b \<Rightarrow> 'w \<times> 'o \<times> fl) \<Rightarrow>
   (string \<Rightarrow> bool \<Rightarrow> 'w \<Rightarrow> 'b \<Rightarrow> fl) \<Rightarrow> string \<Rightarrow> 'b list \<Rightarrow> 'b list \<Rightarrow>
   string \<Rightarrow> bool \<Rightarrow> nat \<Rightarrow> ('w, 'o) trainer \<Rightarrow> py_error + ('w, 'o) trainer" where
  "train_epochs fit vloss model_name train_ds val_ds loss_type ecm_in 0 st = Inr st"
| "train_epochs fit vloss model_name train_ds val_ds loss_type ecm_in (Suc n) st =
     (case run_epoch fit vloss model_name train_ds val_ds loss_type ecm_in st of
        Inl err \<Rightarrow> Inl err
      | Inr st1 \<Rightarrow> train_epochs fit vloss model_name train_ds val_ds loss_type ecm_in n st1)"

text \<open>
  \<open>train_model\<close>, for a model named \<open>model_name\<close> with the weights \<open>w0\<close>, a fresh optimizer
  \<open>opt0\<close>, and the checkpoint directory \<open>files0\<close> as the run finds it. After the last
  epoch \<open>load_weights\<close> reads the checkpoint file and fails when there is none. The
  result is the final state: the weights of the model, the histories that the function
  returns, and the checkpoint directory.
\<close>

definition train_model ::
  "(string \<Rightarrow> bool \<Rightarrow> 'w \<Rightarrow> 'o \<Rightarrow> 'b \<Rightarrow> 'w \<times> 'o \<times> fl) \<Rightarrow>
   (string \<Rightarrow> bool \<Rightarrow> 'w \<Rightarrow> 'b \<Rightarrow> fl) \<Rightarrow> string \<Rightarrow> 'w \<Rightarrow> 'o \<Rightarrow> (string \<Rightarrow> 'w option) \<Rightarrow>
   'b list \<Rightarrow> 'b list \<Rightarrow> string \<Rightarrow> bool \<Rightarrow> nat \<Rightarrow> py_error + ('w, 'o) trainer" where
  "train_model fit vloss model_name w0 opt0 files0 train_ds val_ds loss_type ecm_in epochs =
     (case train_epochs fit vloss model_name train_ds val_ds loss_type ecm_in epochs
             \<lparr>t_weights = w0, t_opt = opt0, best_val_loss = PInf,
              train_loss_history = [], val_loss_history = [], files = files0\<rparr> of
        Inl err \<Rightarrow> Inl err
      | Inr st \<Rightarrow>
          (case files st (checkpoint_path loss_type ecm_in model_name) of
             None \<Rightarrow> Inl (FileNotFoundError (checkpoint_path loss_type ecm_in model_name))
           | Some w \<Rightarrow> Inr (st\<lparr>t_weights := w\<rparr>)))"

section \<open>Evaluator (\<open>evaluate_model\<close>)\<close>

text \<open>
  A tensor of shape (B, L) or (B, L, 1) is the list of its \<open>B\<close> rows of \<open>L\<close> floats
  (\<open>float32\<close>); a batch has at least one row. A NumPy array of at most two dimensions
  is a scalar (zero-dimensional), a vector or a matrix, the list of its rows.
\<close>

type_synonym tensor = "fl list list"

datatype np_array = Scalar fl | Vector "fl list" | Matrix "fl list list"

definition has_shape :: "nat \<Rightarrow> nat \<Rightarrow> tensor \<Rightarrow> bool" where
  "has_shape B L t = (length t = B \<and> list_all (\<lambda>r. length r = L) t)"

text \<open>The first error of a list of results, or all their values.\<close>

fun collect :: "(py_error + 'a) list \<Rightarrow> py_error + 'a list" where
  "collect [] = Inr []"
| "collect (Inl e # rs) = Inl e"
| "collect (Inr v # rs) = (case collect rs of Inl e \<Rightarrow> Inl e | Inr vs \<Rightarrow> Inr (v # vs))"

text \<open>
  An element-wise operation with broadcasting: an axis of length 1 is stretched to the
  length of the other operand's axis; two lengths that differ and are both not 1 raise
  the error \<open>err\<close> (\<open>InvalidArgumentError\<close> in TensorFlow, \<open>ValueError\<close> in NumPy).
\<close>

definition bc_row :: "py_error \<Rightarrow> (fl \<Rightarrow> fl \<Rightarrow> fl) \<Rightarrow> fl list \<Rightarrow> fl list \<Rightarrow> py_error + fl list" where
  "bc_row err f a b =
     (if length a = length b then Inr (map2 f a b)
      else if length a = 1 then Inr (map (f (hd a)) b)
      else if length b = 1 then Inr (map (\<lambda>x. f x (hd b)) a)
      else Inl err)"

definition bc_rows :: "py_error \<Rightarrow> (fl \<Rightarrow> fl \<Rightarrow> fl) \<Rightarrow> tensor \<Rightarrow> tensor \<Rightarrow> py_error + tensor" where
  "bc_rows err f a b =
     (if length a = length b then collect (map2 (bc_row err f) a b)
      else if length a = 1 then collect (map (bc_row err f (hd a)) b)
      else if length b = 1 then collect (map (\<lambda>r. bc_row err f r (hd b)) a)
      else Inl err)"

text \<open>
  \<open>np.squeeze\<close> of an array of shape (B, L) or (B, L, 1) drops every axis of length 1.
\<close>

definition np_squeeze_batch :: "tensor \<Rightarrow> np_array" where
  "np_squeeze_batch t =
     (if length t = 1 then (if length (hd t) = 1 then Scalar (hd (hd t)) else Vector (hd t))
      else if list_all (\<lambda>r. length r = 1) t then Vector (concat t)
      else Matrix t)"

text \<open>
  \<open>np.concatenate\<close> along the first axis: \<open>ValueError\<close> for an empty list, for a
  zero-dimensional array, for arrays of different numbers of dimensions and for
  matrices of different row lengths.
\<close>

fun the_vector :: "np_array \<Rightarrow> fl list option" where
  "the_vector (Vector v) = Some v"
| "the_vector _ = None"

fun the_matrix :: "np_array \<Rightarrow> fl list list option" where
  "the_matrix (Matrix m) = Some m"
| "the_matrix _ = None"

definition np_concatenate :: "np_array list \<Rightarrow> py_error + np_array" where
  "np_concatenate arrays =
     (if arrays = [] then Inl ValueError
      else case those (map the_vector arrays) of
        Some vs \<Rightarrow> Inr (Vector (concat vs))
      | None \<Rightarrow>
          (case those (map the_matrix arrays) of
             Some ms \<Rightarrow>
               (if list_all (\<lambda>r. length r = length (hd (concat ms))) (concat ms)
                then Inr (Matrix (concat ms))
                else Inl ValueError)
           | None \<Rightarrow> Inl ValueError))"

text \<open>Element-wise operations on arrays, the binary one with NumPy's broadcasting.\<close>

fun arr_map :: "(fl \<Rightarrow> fl) \<Rightarrow> np_array \<Rightarrow> np_array" where
  "arr_map f (Scalar v) = Scalar (f v)"
| "arr_map f (Vector v) = Vector (map f v)"
| "arr_map f (Matrix m) = Matrix (map (map f) m)"

fun ndim :: "np_array \<Rightarrow> nat" where
  "ndim (Scalar v) = 0"
| "ndim (Vector v) = 1"
| "ndim (Matrix m) = 2"

fun rows_of :: "np_array \<Rightarrow> tensor" where
  "rows_of (Scalar v) = [[v]]"
| "rows_of (Vector v) = [v]"
| "rows_of (Matrix m) = m"

definition of_rows :: "nat \<Rightarrow> tensor \<Rightarrow> np_array" where
  "of_rows d t = (if d = 0 then Scalar (hd (hd t)) else if d = 1 then Vector (hd t) else Matrix t)"

definition arr_map2 :: "(fl \<Rightarrow> fl \<Rightarrow> fl) \<Rightarrow> np_array \<Rightarrow> np_array \<Rightarrow> py_error + np_array" where
  "arr_map2 f a b =
     (case bc_rows ValueError f (rows_of a) (rows_of b) of
        Inl e \<Rightarrow> Inl e
      | Inr t \<Rightarrow> Inr (of_rows (max (ndim a) (ndim b)) t))"

text \<open>
  The reductions \<open>np.sum\<close> and \<open>np.mean\<close> over all the elements of a \<open>float32\<close> array
  are parameters of the model, \<open>np_sum\<close> and \<open>np_mean\<close>: NumPy sums in blocks, in an
  order that depends on the layout of the array, and rounds each partial sum. The sums
  of the squared residuals and of the squared deviations from the mean, and R squared:
\<close>

definition ss_res_of :: "rounding \<Rightarrow> (np_array \<Rightarrow> fl) \<Rightarrow> np_array \<Rightarrow> fl" where
  "ss_res_of rnd np_sum diff = np_sum (arr_map (\<lambda>d. fmul rnd d d) diff)"

definition ss_tot_of :: "rounding \<Rightarrow> (np_array \<Rightarrow> fl) \<Rightarrow> (np_array \<Rightarrow> fl) \<Rightarrow> np_array \<Rightarrow> fl" where
  "ss_tot_of rnd np_sum np_mean trues =
     np_sum (arr_map (\<lambda>d. fmul rnd d d) (arr_map (\<lambda>t. fsub rnd t (np_mean trues)) trues))"

definition r2_of :: "rounding \<Rightarrow> fl \<Rightarrow> fl \<Rightarrow> fl" where
  "r2_of rnd ss_res ss_tot = fsub rnd (Fin 1) (fdiv rnd ss_res ss_tot)"

text \<open>
  A validation batch is a triple (features, ecm_soc, true_soc); \<open>forward w features\<close> is
  the output of the network, of shape (B, L, 1), an opaque parameter. With \<open>ecm_in\<close> the
  baseline, with an axis of length 1 appended, is added to it. The result is
  (preds, trues, rmse, mae, r2).
\<close>

definition eval_batch ::
  "rounding \<Rightarrow> ('w \<Rightarrow> 'f \<Rightarrow> tensor) \<Rightarrow> 'w \<Rightarrow> bool \<Rightarrow> ('f \<times> tensor \<times> tensor) \<Rightarrow>
   py_error + (np_array \<times> np_array)" where
  "eval_batch rnd forward w ecm_in batch =
     (case batch of (features, ecm_soc, true_soc) \<Rightarrow>
        (let pred = forward w features
         in (case (if ecm_in then bc_rows InvalidArgumentError (fadd rnd) ecm_soc pred
                   else Inr pred) of
               Inl e \<Rightarrow> Inl e
             | Inr pred_soc \<Rightarrow> Inr (np_squeeze_batch pred_soc, np_squeeze_batch true_soc))))"

definition metrics_of ::
  "rounding \<Rightarrow> (np_array \<Rightarrow> fl) \<Rightarrow> (np_array \<Rightarrow> fl) \<Rightarrow> np_array \<Rightarrow> np_array \<Rightarrow>
   py_error + (np_array \<times> np_array \<times> fl \<times> fl \<times> fl)" where
  "metrics_of rnd np_sum np_mean preds trues =
     (case arr_map2 (fsub rnd) preds trues of
        Inl e \<Rightarrow> Inl e
      | Inr diff \<Rightarrow>
          let rmse = fsqrt rnd (np_mean (arr_map (\<lambda>d. fmul rnd d d) diff));
              mae = np_mean (arr_map fabs diff);
              r2 = r2_of rnd (ss_res_of rnd np_sum diff) (ss_tot_of rnd np_sum np_mean trues)
          in Inr (preds, trues, rmse, mae, r2))"

definition evaluate_model ::
  "rounding \<Rightarrow> (np_array \<Rightarrow> fl) \<Rightarrow> (np_array \<Rightarrow> fl) \<Rightarrow> ('w \<Rightarrow> 'f \<Rightarrow> tensor) \<Rightarrow> 'w \<Rightarrow>
   ('f \<times> tensor \<times> tensor) list \<Rightarrow> bool \<Rightarrow>
   py_error + (np_array \<times> np_array \<times> fl \<times> fl \<times> fl)" where
  "evaluate_model rnd np_sum np_mean forward w val_ds ecm_in =
     (case collect (map (eval_batch rnd forward w ecm_in) val_ds) of
        Inl e \<Rightarrow> Inl e
      | Inr pairs \<Rightarrow>
          (case np_concatenate (map fst pairs) of
             Inl e \<Rightarrow> Inl e
           | Inr preds \<Rightarrow>
               (case np_concatenate (map snd pairs) of
                  Inl e \<Rightarrow> Inl e
                | Inr trues \<Rightarrow> metrics_of rnd np_sum np_mean preds trues)))"

text \<open>
  Reductions to test with: the elements of the array in storage order, summed from
  left to right, each step rounded.
\<close>

fun elements :: "np_array \<Rightarrow> fl list" where
  "elements (Scalar v) = [v]"
| "elements (Vector v) = v"
| "elements (Matrix m) = concat m"

definition seq_np_sum :: "rounding \<Rightarrow> np_array \<Rightarrow> fl" where
  "seq_np_sum rnd a = seq_sum rnd (elements a)"

definition seq_np_mean :: "rounding \<Rightarrow> np_array \<Rightarrow> fl" where
  "seq_np_mean rnd a = seq_mean rnd (elements a)"

text \<open>
  The arrays and the two sums that an evaluation without error works with, for
  batches of at least two samples of at least two points each: the rows of all the
  batches, in their order.
\<close>

definition batch_pred :: "rounding \<Rightarrow> ('w \<Rightarrow> 'f \<Rightarrow> tensor) \<Rightarrow> 'w \<Rightarrow> bool \<Rightarrow> ('f \<times> tensor \<times> tensor) \<Rightarrow> tensor" where
  "batch_pred rnd forward w ecm_in batch =
     (case batch of (features, ecm_soc, true_soc) \<Rightarrow>
        if ecm_in then map2 (map2 (fadd rnd)) ecm_soc (forward w features)
        else forward w features)"

definition val_preds ::
  "rounding \<Rightarrow> ('w \<Rightarrow> 'f \<Rightarrow> tensor) \<Rightarrow> 'w \<Rightarrow> ('f \<times> tensor \<times> tensor) list \<Rightarrow> bool \<Rightarrow> tensor" where
  "val_preds rnd forward w val_ds ecm_in = concat (map (batch_pred rnd forward w ecm_in) val_ds)"

definition val_trues :: "('f \<times> tensor \<times> tensor) list \<Rightarrow> tensor" where
  "val_trues val_ds = concat (map (\<lambda>(features, ecm_soc, true_soc). true_soc) val_ds)"

definition val_ss_res ::
  "rounding \<Rightarrow> (np_array \<Rightarrow> fl) \<Rightarrow> ('w \<Rightarrow> 'f \<Rightarrow> tensor) \<Rightarrow> 'w \<Rightarrow> ('f \<times> tensor \<times> tensor) list \<Rightarrow>
   bool \<Rightarrow> fl" where
  "val_ss_res rnd np_sum forward w val_ds ecm_in =
     ss_res_of rnd np_sum
       (Matrix (map2 (map2 (fsub rnd)) (val_preds rnd forward w val_ds ecm_in) (val_trues val_ds)))"

definition val_ss_tot ::
  "rounding \<Rightarrow> (np_array \<Rightarrow> fl) \<Rightarrow> (np_array \<Rightarrow> fl) \<Rightarrow> ('f \<times> tensor \<times> tensor) list \<Rightarrow> fl" where
  "val_ss_tot rnd np_sum np_mean val_ds = ss_tot_of rnd np_sum np_mean (Matrix (val_trues val_ds))"

text \<open>
  What the division by a sum of squared deviations that is zero makes of R squared.
\<close>

fun r2_zero_division :: "fl \<Rightarrow> fl" where
  "r2_zero_division (Fin r) = (if r = 0 then NaN else if 0 < r then MInf else PInf)"
| "r2_zero_division PInf = MInf"
| "r2_zero_division MInf = PInf"
| "r2_zero_division NaN = NaN"

text \<open>Two samples of two points each, all 1 and all 0.\<close>

definition ones22 :: tensor where
  "ones22 = [[Fin 1, Fin 1], [Fin 1, Fin 1]]"

definition zeros22 :: tensor where
  "zeros22 = [[Fin 0, Fin 0], [Fin 0, Fin 0]]"

section \<open>Observing a run\<close>

text \<open>
  The weights and the optimizer state after the training batches of one epoch, and
  after \<open>n\<close> epochs of a run that starts from \<open>(w0, opt0)\<close>. The checkpoint is read
  only after the last epoch, so the training does not depend on it.
\<close>

fun fit_batches ::
  "(string \<Rightarrow> bool \<Rightarrow> 'w \<Rightarrow> 'o \<Rightarrow> 'b \<Rightarrow> 'w \<times> 'o \<times> fl) \<Rightarrow> string \<Rightarrow> bool \<Rightarrow>
   'b list \<Rightarrow> 'w \<times> 'o \<Rightarrow> 'w \<times> 'o" where
  "fit_batches fit loss_type ecm_in [] s = s"
| "fit_batches fit loss_type ecm_in (b # train_ds) s =
     (case fit loss_type ecm_in (fst s) (snd s) b of
        (w1, opt1, loss) \<Rightarrow> fit_batches fit loss_type ecm_in train_ds (w1, opt1))"

definition weights_after ::
  "(string \<Rightarrow> bool \<Rightarrow> 'w \<Rightarrow> 'o \<Rightarrow> 'b \<Rightarrow> 'w \<times> 'o \<times> fl) \<Rightarrow> string \<Rightarrow> bool \<Rightarrow>
   'b list \<Rightarrow> 'w \<times> 'o \<Rightarrow> nat \<Rightarrow> 'w" where
  "weights_after fit loss_type ecm_in train_ds s n =
     fst ((fit_batches fit loss_type ecm_in train_ds ^^ n) s)"

text \<open>
  The mean validation loss of the epoch number \<open>k\<close> (counted from 0): the mean of the
  batch losses under the weights after \<open>k + 1\<close> epochs of training.
\<close>

definition epoch_val_loss ::
  "(string \<Rightarrow> bool \<Rightarrow> 'w \<Rightarrow> 'o \<Rightarrow> 'b \<Rightarrow> 'w \<times> 'o \<times> fl) \<Rightarrow>
   (string \<Rightarrow> bool \<Rightarrow> 'w \<Rightarrow> 'b \<Rightarrow> fl) \<Rightarrow> 'b list \<Rightarrow> 'b list \<Rightarrow> string \<Rightarrow> bool \<Rightarrow>
   'w \<times> 'o \<Rightarrow> nat \<Rightarrow> fl" where
  "epoch_val_loss fit vloss train_ds val_ds loss_type ecm_in s k =
     np_mean_fl (map (vloss loss_type ecm_in
                        (weights_after fit loss_type ecm_in train_ds s (Suc k))) val_ds)"

text \<open>
  A run to test the trainer on: the weights count the epochs, there is one training
  batch and one validation batch, and the validation loss of epoch \<open>k\<close> is the entry
  \<open>k\<close> of a given list.
\<close>

definition counting_fit :: "string \<Rightarrow> bool \<Rightarrow> nat \<Rightarrow> unit \<Rightarrow> unit \<Rightarrow> nat \<times> unit \<times> fl" where
  "counting_fit loss_type ecm_in w opt b = (w + 1, (), Fin 0)"

definition listed_vloss :: "fl list \<Rightarrow> string \<Rightarrow> bool \<Rightarrow> nat \<Rightarrow> unit \<Rightarrow> fl" where
  "listed_vloss losses loss_type ecm_in w b = losses ! (w - 1)"

section \<open>The retention rule in the words of the specification\<close>

text \<open>The entries of a cycle field, in order.\<close>

fun entries_of :: "cycles_field \<Rightarrow> entry list" where
  "entries_of NoCycleField = []"
| "entries_of NotIterable = []"
| "entries_of (OneCycle c) = [Cycle c]"
| "entries_of (CycleList cycles) = cycles"

text \<open>The data block of a cycle, empty when the cycle has none.\<close>

definition cycle_data :: "cycle \<Rightarrow> data_block" where
  "cycle_data c = (case c_data c of Some (Struct d) \<Rightarrow> d | _ \<Rightarrow> [])"

text \<open>The vector that an entry holds for a channel, under the first or the second key.\<close>

definition entry_channel :: "entry \<Rightarrow> string \<Rightarrow> string \<Rightarrow> real list" where
  "entry_channel e k1 k2 =
     (case e of
        NotADict \<Rightarrow> []
      | Cycle c \<Rightarrow> get_channel (cycle_data c) k1 k2)"

text \<open>The type tag of the entry, compared without regard to case, is \<open>discharge\<close>.\<close>

definition discharge_tagged :: "entry \<Rightarrow> bool" where
  "discharge_tagged e =
     (case e of
        NotADict \<Rightarrow> False
      | Cycle c \<Rightarrow> (case c_type c of None \<Rightarrow> False | Some t \<Rightarrow> str_lower t = ''discharge''))"

text \<open>
  The specification retains an entry when its type tag, compared without regard to case,
  is \<open>discharge\<close> and its voltage and current vectors have at least 5 samples each.
\<close>

definition spec_retained :: "entry \<Rightarrow> bool" where
  "spec_retained e =
     (discharge_tagged e \<and>
      5 \<le> length (entry_channel e ''Voltage_measured'' ''voltage'') \<and>
      5 \<le> length (entry_channel e ''Current_measured'' ''current''))"

text \<open>The data field of an entry tagged \<open>discharge\<close> is a struct, or absent.\<close>

definition data_readable :: "entry \<Rightarrow> bool" where
  "data_readable e =
     (case e of
        NotADict \<Rightarrow> True
      | Cycle c \<Rightarrow> discharge_tagged e \<longrightarrow> c_data c \<noteq> Some NotAStruct)"

text \<open>No channel of an entry tagged \<open>discharge\<close> holds exactly one sample.\<close>

definition no_single_sample :: "entry \<Rightarrow> bool" where
  "no_single_sample e =
     (discharge_tagged e \<longrightarrow>
      length (entry_channel e ''Voltage_measured'' ''voltage'') \<noteq> 1 \<and>
      length (entry_channel e ''Current_measured'' ''current'') \<noteq> 1 \<and>
      length (entry_channel e ''Temperature_measured'' ''temperature'') \<noteq> 1 \<and>
      length (entry_channel e ''Time'' ''time'') \<noteq> 1)"

text \<open>The discharge parameters of a battery, none when the entry is absent.\<close>

definition params_of :: "battery_meta \<Rightarrow> discharge_meta" where
  "params_of meta = (case discharge meta of Some (Params d) \<Rightarrow> d | _ \<Rightarrow> no_params)"

text \<open>The row of the cycle at position \<open>i\<close>, from its four channels resampled.\<close>

definition row_of :: "string \<Rightarrow> battery_meta \<Rightarrow> nat \<Rightarrow> nat \<Rightarrow> cycle \<Rightarrow> row" where
  "row_of battery_id meta num_points i c =
     make_row battery_id meta (params_of meta) i c (parse_capacity (cycle_data c))
       (anchor_resample (get_channel (cycle_data c) ''Voltage_measured'' ''voltage'') num_points)
       (anchor_resample (get_channel (cycle_data c) ''Current_measured'' ''current'') num_points)
       (anchor_resample (get_channel (cycle_data c) ''Temperature_measured'' ''temperature'')
          num_points)
       (anchor_resample (get_channel (cycle_data c) ''Time'' ''time'') num_points)"

text \<open>What the specification keeps of the entry at position \<open>i\<close>: its row, or nothing.\<close>

fun spec_row :: "string \<Rightarrow> battery_meta \<Rightarrow> nat \<Rightarrow> nat \<Rightarrow> entry \<Rightarrow> row option" where
  "spec_row battery_id meta num_points i NotADict = None"
| "spec_row battery_id meta num_points i (Cycle c) =
     (if spec_retained (Cycle c) then Some (row_of battery_id meta num_points i c) else None)"

text \<open>The rows of the entries that the specification retains, in order, from position \<open>i\<close> on.\<close>

fun spec_rows :: "string \<Rightarrow> battery_meta \<Rightarrow> nat \<Rightarrow> nat \<Rightarrow> entry list \<Rightarrow> row list" where
  "spec_rows battery_id meta num_points i [] = []"
| "spec_rows battery_id meta num_points i (e # cycles) =
     (case spec_row battery_id meta num_points i e of
        None \<Rightarrow> spec_rows battery_id meta num_points (i + 1) cycles
      | Some row \<Rightarrow> row # spec_rows battery_id meta num_points (i + 1) cycles)"

section \<open>Example data\<close>

text \<open>
  A discharge cycle with five samples per channel, and the same cycle with a time
  channel that does not end at its largest value.
\<close>

definition example_cycle :: cycle where
  "example_cycle =
     \<lparr>c_type = Some ''Discharge'', c_index = Some 7, c_time = None,
      c_ambient_temperature = Some 24,
      c_data = Some (Struct [(''Voltage_measured'', [4, 3, 3, 3, 2]),
                             (''Current_measured'', [1, 1, 1, 1, 1]),
                             (''Temperature_measured'', [24, 25, 26, 27, 28]),
                             (''Time'', [0, 1, 2, 3, 4]),
                             (''Capacity'', [2])])\<rparr>"

definition example_cycle_late_peak :: cycle where
  "example_cycle_late_peak =
     example_cycle\<lparr>c_data := Some (Struct [(''Voltage_measured'', [4, 3, 3, 3, 2]),
                                           (''Current_measured'', [1, 1, 1, 1, 1]),
                                           (''Time'', [0, 1, 2, 4, 3])])\<rparr>"

definition example_meta :: battery_meta where
  "example_meta =
     \<lparr>usable = Some True, sub_dir = ''batch1'', c0 = Some 2, fade_in_percent = None,
      discharge = None\<rparr>"


section \<open>Properties of the resampler\<close>

lemma length_np_linspace: "length (np_linspace a b n) = n"
  by (simp add: np_linspace_def)

lemma length_anchor_resample: "length (anchor_resample x n) = n"
  by (simp add: anchor_resample_def np_zeros_def np_full_def np_interp_def Let_def length_np_linspace)

lemma np_linspace_nth:
  "2 \<le> n \<Longrightarrow> i < n \<Longrightarrow> np_linspace a b n ! i = a + real i * ((b - a) / real (n - 1))"
  by (simp add: np_linspace_def)

lemma np_linspace_first: "1 \<le> n \<Longrightarrow> np_linspace a b n ! 0 = a"
  by (auto simp: np_linspace_def)

lemma np_linspace_last: "2 \<le> n \<Longrightarrow> np_linspace a b n ! (n - 1) = b"
  by (simp add: np_linspace_nth)

lemma np_linspace_Cons: "1 \<le> n \<Longrightarrow> \<exists>xp. np_linspace a b n = a # xp"
  by (cases "np_linspace a b n")
    (use np_linspace_first [of n a b] length_np_linspace [of a b n] in auto)

lemma np_linspace_le:
  assumes "0 \<le> b"
  shows "\<forall>t\<in>set (np_linspace 0 b n). t \<le> b"
proof (cases "2 \<le> n")
  case True
  have "real i * (b / real (n - 1)) \<le> b" if "i < n" for i
  proof -
    have "real i \<le> real (n - 1)" using that by simp
    then have "real i * b \<le> real (n - 1) * b" using assms by (intro mult_right_mono) auto
    moreover have "0 < real (n - 1)" using True by simp
    ultimately show ?thesis by (simp add: pos_divide_le_eq mult.commute)
  qed
  then show ?thesis using True by (auto simp: np_linspace_def)
next
  case False
  then show ?thesis using assms by (auto simp: np_linspace_def)
qed

text \<open>Right of every sample point the interpolation returns the last value.\<close>

lemma interp_from_past_end:
  "length xp = length fp \<Longrightarrow> \<forall>x1\<in>set xp. x1 \<le> x \<Longrightarrow>
   interp_from x x0 f0 xp fp = last (f0 # fp)"
proof (induction xp arbitrary: x0 f0 fp)
  case Nil
  then show ?case by simp
next
  case (Cons x1 xp)
  then obtain f1 fp' where fp: "fp = f1 # fp'" by (cases fp) auto
  with Cons show ?case by auto
qed


lemma interp_at_last:
  assumes "length xp = length fp" "\<forall>x1\<in>set xp. x1 \<le> x" "xp = x0 # xp'" "x0 < x"
  shows "interp_at xp fp x = last fp"
proof -
  obtain f0 fp' where fp: "fp = f0 # fp'" using assms(1,3) by (cases fp) auto
  have "interp_from x x0 f0 xp' fp' = last (f0 # fp')"
    using assms by (intro interp_from_past_end) (auto simp: fp)
  then show ?thesis using assms(4) unfolding fp assms(3) by simp
qed


lemma anchor_resample_single: "length x = 1 \<Longrightarrow> anchor_resample x n = replicate n (x ! 0)"
  by (simp add: anchor_resample_def np_full_def)

lemma anchor_resample_interp:
  "2 \<le> length x \<Longrightarrow>
   anchor_resample x n =
     map (interp_at (np_linspace 0 (real (length x - 1)) (length x)) x)
       (np_linspace 0 (real (length x - 1)) n)"
  unfolding anchor_resample_def Let_def np_interp_def by auto

lemma two_le_length: "x \<noteq> [] \<Longrightarrow> length x \<noteq> 1 \<Longrightarrow> 2 \<le> length x"
  by (cases x) (auto simp: Suc_le_eq)

lemma anchor_resample_nth:
  assumes "2 \<le> length x" "i < n"
  shows "anchor_resample x n ! i =
    interp_at (np_linspace 0 (real (length x - 1)) (length x)) x
      (np_linspace 0 (real (length x - 1)) n ! i)"
proof -
  have "i < length (np_linspace 0 (real (length x - 1)) n)"
    using assms(2) by (simp only: length_np_linspace)
  then show ?thesis
    unfolding anchor_resample_interp [OF assms(1)] by (rule nth_map)
qed


lemma anchor_resample_last:
  assumes "2 \<le> length x" "2 \<le> n"
  shows "anchor_resample x n ! (n - 1) = x ! (length x - 1)"
proof -
  let ?b = "real (length x - 1)"
  obtain xp where xp: "np_linspace 0 ?b (length x) = 0 # xp"
    using np_linspace_Cons [of "length x"] assms by fastforce
  have "anchor_resample x n ! (n - 1) =
      interp_at (np_linspace 0 ?b (length x)) x (np_linspace 0 ?b n ! (n - 1))"
    using assms(2) by (intro anchor_resample_nth [OF assms(1)]) simp
  also have "\<dots> = interp_at (np_linspace 0 ?b (length x)) x ?b"
    by (simp only: np_linspace_last [OF assms(2)])
  also have "\<dots> = last x"
  proof (rule interp_at_last [OF _ _ xp])
    show "length (np_linspace 0 ?b (length x)) = length x" by (rule length_np_linspace)
    show "\<forall>x1\<in>set (np_linspace 0 ?b (length x)). x1 \<le> ?b" by (rule np_linspace_le) simp
    show "0 < ?b" using assms by simp
  qed
  also have "\<dots> = x ! (length x - 1)"
    using assms by (intro last_conv_nth) auto
  finally show ?thesis .
qed

lemma convex_step:
  fixes f0 f1 :: real
  assumes "x0 \<le> x" "x < x1" "lo \<le> f0" "f0 \<le> hi" "lo \<le> f1" "f1 \<le> hi"
  shows "lo \<le> f0 + (f1 - f0) / (x1 - x0) * (x - x0) \<and> f0 + (f1 - f0) / (x1 - x0) * (x - x0) \<le> hi"
proof -
  define t where "t = (x - x0) / (x1 - x0)"
  have t: "0 \<le> t" "t \<le> 1" using assms(1,2) by (auto simp: t_def)
  have eq: "f0 + (f1 - f0) / (x1 - x0) * (x - x0) = (1 - t) * f0 + t * f1"
    by (simp add: t_def algebra_simps diff_divide_distrib add_divide_distrib)
  have "(1 - t) * lo + t * lo \<le> (1 - t) * f0 + t * f1"
    using t assms(3,5) by (intro add_mono mult_left_mono) auto
  moreover have "(1 - t) * f0 + t * f1 \<le> (1 - t) * hi + t * hi"
    using t assms(4,6) by (intro add_mono mult_left_mono) auto
  ultimately show ?thesis unfolding eq by (simp add: algebra_simps)
qed

lemma interp_from_bounds:
  assumes "x0 \<le> x" "lo \<le> f0" "f0 \<le> hi" "\<forall>f\<in>set fp. lo \<le> f \<and> f \<le> hi"
  shows "lo \<le> interp_from x x0 f0 xp fp \<and> interp_from x x0 f0 xp fp \<le> hi"
  using assms
proof (induction x x0 f0 xp fp rule: interp_from.induct)
  case (1 x x0 f0 x1 xp f1 fp)
  show ?case
  proof (cases "x < x1")
    case True
    then show ?thesis using "1.prems" convex_step [of x0 x x1 lo f0 hi f1] by simp
  next
    case False
    then have "lo \<le> interp_from x x1 f1 xp fp \<and> interp_from x x1 f1 xp fp \<le> hi"
      using "1.prems" by (intro "1.IH") auto
    then show ?thesis using False by simp
  qed
qed simp_all

lemma interp_at_bounds:
  assumes "length xp = length fp" "fp \<noteq> []" "\<forall>f\<in>set fp. lo \<le> f \<and> f \<le> hi"
  shows "lo \<le> interp_at xp fp x \<and> interp_at xp fp x \<le> hi"
proof -
  obtain f0 fp' where fp: "fp = f0 # fp'" using assms(2) by (cases fp) auto
  obtain x0 xp' where xp: "xp = x0 # xp'" using assms(1) fp by (cases xp) auto
  show ?thesis
  proof (cases "x \<le> x0")
    case True
    then show ?thesis using assms(3) by (simp add: fp xp)
  next
    case False
    then have "lo \<le> interp_from x x0 f0 xp' fp' \<and> interp_from x x0 f0 xp' fp' \<le> hi"
      using assms(3) by (intro interp_from_bounds) (auto simp: fp)
    then show ?thesis using False by (simp add: fp xp)
  qed
qed

lemma anchor_resample_bounds:
  assumes "x \<noteq> []" "\<forall>v\<in>set x. lo \<le> v \<and> v \<le> hi"
  shows "\<forall>v\<in>set (anchor_resample x n). lo \<le> v \<and> v \<le> hi"
proof (cases "length x = 1")
  case True
  then have "x ! 0 \<in> set x" by (intro nth_mem) simp
  then show ?thesis using True assms(2) by (auto simp: anchor_resample_single)
next
  case False
  then have n2: "2 \<le> length x" using assms(1) by (simp add: two_le_length)
  have "lo \<le> interp_at (np_linspace 0 (real (length x - 1)) (length x)) x t \<and>
        interp_at (np_linspace 0 (real (length x - 1)) (length x)) x t \<le> hi" for t
    using assms by (intro interp_at_bounds) (simp_all add: length_np_linspace)
  then show ?thesis unfolding anchor_resample_interp [OF n2] by auto
qed




section \<open>Properties of the coulomb counter\<close>

lemma np_clip_unit: "a \<noteq> NaN \<Longrightarrow> in_unit (np_clip a 0 1)"
  by (cases a) simp_all

lemma np_clip_unit_or_nan: "np_clip a 0 1 = NaN \<or> in_unit (np_clip a 0 1)"
  by (cases a) simp_all

lemma in_unit_Fin: "in_unit s \<Longrightarrow> \<exists>a. s = Fin a"
  by (cases s) simp_all

lemma length_ecm_loop:
  "length (ecm_loop rnd dt cap current soc prof) = length prof + length current"
  by (induction current arbitrary: soc prof) (simp_all add: Let_def)

text \<open>Whatever the samples, a value of the profile is in the unit interval or NaN.\<close>

lemma ecm_loop_unit_or_nan:
  "\<forall>s\<in>set prof. s = NaN \<or> in_unit s \<Longrightarrow>
   \<forall>s\<in>set (ecm_loop rnd dt cap current soc prof). s = NaN \<or> in_unit s"
proof (induction current arbitrary: soc prof)
  case Nil
  then show ?case by simp
next
  case (Cons c current)
  let ?soc2 = "np_clip (fsub rnd soc (fdiv rnd (fmul rnd c dt) (fmul rnd cap (Fin 3600)))) 0 1"
  have "\<forall>s\<in>set (prof @ [?soc2]). s = NaN \<or> in_unit s"
    using Cons.prems np_clip_unit_or_nan [of "fsub rnd soc (fdiv rnd (fmul rnd c dt) (fmul rnd cap (Fin 3600)))"]
    by auto
  from Cons.IH [OF this] show ?case by (simp add: Let_def)
qed

lemma simple_ecm_unit_or_nan:
  "length (simple_ecm rnd current delta_t capacity) = length current \<and>
   (\<forall>s\<in>set (simple_ecm rnd current delta_t capacity). s = NaN \<or> in_unit s)"
  unfolding simple_ecm_def using ecm_loop_unit_or_nan [of "[]"] by (simp add: length_ecm_loop)

text \<open>
  One step from a finite state of charge gives no NaN when the product of the sample
  and the time step is no NaN and the product of the capacity and 3600 is finite and
  not zero.
\<close>

lemma ecm_step_not_nan:
  assumes "\<forall>x. rnd x \<noteq> NaN" and "q \<noteq> 0" and "P \<noteq> NaN"
  shows "fsub rnd (Fin s) (fdiv rnd P (Fin q)) \<noteq> NaN"
proof (cases P)
  case (Fin p)
  have "rnd (p / q) \<noteq> NaN" "rnd (s - p / q) \<noteq> NaN" using assms(1) by simp_all
  then show ?thesis
    using assms(2) Fin by (cases "rnd (p / q)") (simp_all add: fsub_def assms(1))
next
  case PInf
  then show ?thesis by (simp add: fsub_def)
next
  case MInf
  then show ?thesis by (simp add: fsub_def)
next
  case NaN
  then show ?thesis using assms(3) by simp
qed

lemma ecm_loop_unit:
  assumes "\<forall>x. rnd x \<noteq> NaN"
    and "\<forall>c\<in>set current. fmul rnd c dt \<noteq> NaN"
    and "fmul rnd cap (Fin 3600) = Fin q" and "q \<noteq> 0"
    and "in_unit soc"
    and "\<forall>s\<in>set prof. in_unit s"
  shows "\<forall>s\<in>set (ecm_loop rnd dt cap current soc prof). in_unit s"
  using assms(2,5,6)
proof (induction current arbitrary: soc prof)
  case Nil
  then show ?case by simp
next
  case (Cons c current)
  have p: "fmul rnd c dt \<noteq> NaN" using Cons.prems(1) by simp
  obtain s where s: "soc = Fin s" using Cons.prems(2) in_unit_Fin by blast
  let ?soc1 = "fsub rnd soc (fdiv rnd (fmul rnd c dt) (fmul rnd cap (Fin 3600)))"
  have "?soc1 \<noteq> NaN"
    unfolding s assms(3) using assms(1,4) p by (rule ecm_step_not_nan)
  then have soc2: "in_unit (np_clip ?soc1 0 1)" by (rule np_clip_unit)
  then have prof: "\<forall>s\<in>set (prof @ [np_clip ?soc1 0 1]). in_unit s"
    using Cons.prems(3) by auto
  have rest: "\<forall>c\<in>set current. fmul rnd c dt \<noteq> NaN" using Cons.prems(1) by simp
  from Cons.IH [OF rest soc2 prof] show ?case by (simp add: Let_def)
qed

text \<open>
  C8, as amended. For a current trace, a time step and a capacity such that the
  product of the capacity and 3600 is a finite double other than zero and no product of
  a sample and the time step is NaN (no operand is NaN, and none is infinite where the
  other is zero), the output of \<open>simple_ecm\<close> is as long as the trace and each of its
  values lies in the unit interval; the products of the samples and the time step may
  overflow. The rounding may be any that returns no NaN, as the rounding of the doubles.
\<close>

theorem simple_ecm_unit:
  assumes "\<forall>x. rnd x \<noteq> NaN"
    and "\<forall>c\<in>set current. fmul rnd c delta_t \<noteq> NaN"
    and "\<exists>q. q \<noteq> 0 \<and> fmul rnd capacity (Fin 3600) = Fin q"
  shows "length (simple_ecm rnd current delta_t capacity) = length current \<and>
         (\<forall>s\<in>set (simple_ecm rnd current delta_t capacity). in_unit s)"
proof -
  obtain q where q: "q \<noteq> 0" "fmul rnd capacity (Fin 3600) = Fin q" using assms(3) by blast
  have "\<forall>s\<in>set (ecm_loop rnd delta_t capacity current (Fin 1) []). in_unit s"
    using assms(1,2) q(2,1) by (rule ecm_loop_unit) simp_all
  then show ?thesis by (simp add: simple_ecm_def length_ecm_loop)
qed

lemma round64_not_nan: "\<forall>x. round64 x \<noteq> NaN"
  by (simp add: round64_def overflow_round_def)

lemma round64_small: "\<bar>x\<bar> \<le> 7200 \<Longrightarrow> round64 x = Fin x"
proof -
  assume a: "\<bar>x\<bar> \<le> 7200"
  have "(7200 :: real) < 2 ^ 13" by simp
  also have "\<dots> \<le> 2 ^ 1024" by (rule power_increasing) simp_all
  finally have "\<bar>x\<bar> < 2 ^ 1024" using a by simp
  then show ?thesis by (auto simp: round64_def overflow_round_def)
qed

lemma round64_overflow: "fmul round64 (Fin (2 ^ 1023)) (Fin 4) = PInf"
proof -
  have "(2 :: real) ^ 1023 * 4 = 2 ^ 1023 * 2 ^ 2" by simp
  also have "\<dots> = 2 ^ 1025" by (simp only: power_add [symmetric]) simp
  finally have "(2 :: real) ^ 1024 \<le> 2 ^ 1023 * 4" by simp
  then show ?thesis by (simp add: round64_def overflow_round_def)
qed

text \<open>
  A trace with a negative sample and a sample whose product with the time step
  overflows: the state of charge is 1/2, then 1, then 0.
\<close>

theorem simple_ecm_unit_witness:
  "(\<forall>x. round64 x \<noteq> NaN) \<and>
   fmul round64 (Fin 900) (Fin 4) = Fin 3600 \<and>
   fmul round64 (Fin (- 1800)) (Fin 4) = Fin (- 7200) \<and>
   fmul round64 (Fin (2 ^ 1023)) (Fin 4) = PInf \<and>
   fmul round64 (Fin 2) (Fin 3600) = Fin 7200 \<and>
   simple_ecm round64 [Fin 900, Fin (- 1800), Fin (2 ^ 1023)] (Fin 4) (Fin 2)
     = [Fin (1 / 2), Fin 1, Fin 0] \<and>
   list_all in_unit (simple_ecm round64 [Fin 900, Fin (- 1800), Fin (2 ^ 1023)] (Fin 4) (Fin 2))"
proof -
  have r: "fmul round64 (Fin 900) (Fin 4) = Fin 3600"
    "fmul round64 (Fin (- 1800)) (Fin 4) = Fin (- 7200)"
    "fmul round64 (Fin 2) (Fin 3600) = Fin 7200"
    by (simp_all add: round64_small)
  have prods: "\<forall>c\<in>set [Fin 900, Fin (- 1800), Fin (2 ^ 1023)]. fmul round64 c (Fin 4) \<noteq> NaN"
    using r round64_overflow by simp
  have cap: "\<exists>q. q \<noteq> 0 \<and> fmul round64 (Fin 2) (Fin 3600) = Fin q"
    using r by simp
  have run: "simple_ecm round64 [Fin 900, Fin (- 1800), Fin (2 ^ 1023)] (Fin 4) (Fin 2)
      = [Fin (1 / 2), Fin 1, Fin 0]"
    unfolding simple_ecm_def ecm_loop.simps Let_def r round64_overflow
    by (simp add: fsub_def round64_small)
  from simple_ecm_unit [OF round64_not_nan prods cap]
  show ?thesis using r round64_overflow round64_not_nan run by (simp add: list_all_iff)
qed

text \<open>
  C8 as stated fails when the products overflow: for the sample \<open>225 * 2 ^ 514\<close>, the
  time step \<open>2 ^ 510\<close> and the capacity \<open>2 ^ 1020\<close> both products are infinite, their
  quotient is NaN, and the clipping keeps the NaN.
\<close>

theorem simple_ecm_overflow_counterexample:
  "(0 :: real) < 2 ^ 510 \<and> (0 :: real) < 2 ^ 1020 \<and>
   simple_ecm round64 [Fin (225 * 2 ^ 514)] (Fin (2 ^ 510)) (Fin (2 ^ 1020)) = [NaN] \<and>
   \<not> in_unit NaN"
proof -
  have a: "(2 :: real) ^ 1024 \<le> 225 * 2 ^ 514 * 2 ^ 510"
  proof -
    have "(2 :: real) ^ 1024 = 2 ^ 514 * 2 ^ 510" by (simp add: power_add [symmetric])
    also have "\<dots> \<le> 225 * 2 ^ 514 * 2 ^ 510" by simp
    finally show ?thesis .
  qed
  have b: "(2 :: real) ^ 1024 \<le> 2 ^ 1020 * 3600"
  proof -
    have "(2 :: real) ^ 1024 = 2 ^ 1020 * 2 ^ 4" by (simp add: power_add [symmetric])
    also have "\<dots> \<le> 2 ^ 1020 * 3600" by simp
    finally show ?thesis .
  qed
  have "fmul round64 (Fin (225 * 2 ^ 514)) (Fin (2 ^ 510)) = PInf"
    using a by (simp add: round64_def overflow_round_def)
  moreover have "fmul round64 (Fin (2 ^ 1020)) (Fin 3600) = PInf"
    using b by (simp add: round64_def overflow_round_def)
  ultimately show ?thesis
    by (simp add: simple_ecm_def fsub_def Let_def)
qed

section \<open>Properties of the losses\<close>

lemma tf_square_fneg: "tf_square rnd (fneg v) = tf_square rnd v"
  by (cases v) (simp_all add: tf_square_def)

lemma fsub_swap:
  assumes "\<forall>x. rnd (- x) = fneg (rnd x)"
  shows "fsub rnd a b = fneg (fsub rnd b a)"
proof (cases a)
  case (Fin x)
  show ?thesis
  proof (cases b)
    case (Fin y)
    have "rnd (x - y) = fneg (rnd (y - x))" using assms [rule_format, of "y - x"] by simp
    then show ?thesis using \<open>a = Fin x\<close> Fin by (simp add: fsub_def)
  qed (simp_all add: Fin fsub_def)
next
  case PInf
  then show ?thesis by (cases b) (simp_all add: fsub_def)
next
  case MInf
  then show ?thesis by (cases b) (simp_all add: fsub_def)
next
  case NaN
  then show ?thesis by (cases b) (simp_all add: fsub_def)
qed

lemma square_diff_commute:
  assumes "\<forall>x. rnd (- x) = fneg (rnd x)"
  shows "map (tf_square rnd) (map2 (fsub rnd) a b) = map (tf_square rnd) (map2 (fsub rnd) b a)"
proof -
  have "tf_square rnd (fsub rnd x y) = tf_square rnd (fsub rnd y x)" for x y
    by (subst fsub_swap [OF assms]) (rule tf_square_fneg)
  then show ?thesis
    by (subst zip_commute) (simp add: case_prod_unfold)
qed

lemma mse_term_mse_loss:
  assumes "\<forall>x. rnd (- x) = fneg (rnd x)"
  shows "mse_term rnd mean y_true y_pred = mse_loss rnd mean y_true y_pred"
  unfolding mse_term_def mse_loss_def
  by (simp only: square_diff_commute [OF assms, of y_pred y_true])

lemma fadd_zero_right:
  assumes "\<forall>m. a = Fin m \<longrightarrow> rnd m = Fin m"
  shows "fadd rnd a (Fin 0) = a"
  using assms by (cases a) simp_all

text \<open>A weight 0 on a term that is not finite makes the loss NaN.\<close>

lemma physics_loss_nonfinite_term:
  assumes "coulomb_term rnd mean y_pred ecm_soc \<in> {PInf, MInf, NaN} \<or>
           boundary_term rnd mean y_pred \<in> {PInf, MInf, NaN}"
  shows "physics_informed_loss rnd mean y_true y_pred ecm_soc (Fin 0) (Fin 0) = NaN"
proof -
  have z: "fmul rnd (Fin 0) v = NaN" if "v \<in> {PInf, MInf, NaN}" for v
    using that by (auto simp: inf_of_sign_def)
  have l: "fadd rnd a NaN = NaN" for a by (cases a) simp_all
  from assms show ?thesis
  proof
    assume "coulomb_term rnd mean y_pred ecm_soc \<in> {PInf, MInf, NaN}"
    then show ?thesis
      unfolding physics_informed_loss_def Let_def by (simp only: z l fadd.simps)
  next
    assume "boundary_term rnd mean y_pred \<in> {PInf, MInf, NaN}"
    then show ?thesis
      unfolding physics_informed_loss_def Let_def by (simp only: z l)
  qed
qed

text \<open>
  C10, as amended. On a prediction, a target and a baseline of one shape, with a
  rounding that is symmetric, rounds 0 to 0 and keeps the float that \<open>mse_loss\<close> returns,
  the physics-informed loss with both weights 0 is the value of \<open>mse_loss\<close> whenever its
  coulomb term and its boundary term are finite.
\<close>

theorem physics_loss_zero_weights:
  assumes "length y_true = length y_pred" and "length ecm_soc = length y_pred"
    and "rnd 0 = Fin 0"
    and "\<forall>x. rnd (- x) = fneg (rnd x)"
    and "\<forall>m. mse_loss rnd mean y_true y_pred = Fin m \<longrightarrow> rnd m = Fin m"
    and "coulomb_term rnd mean y_pred ecm_soc = Fin c"
    and "boundary_term rnd mean y_pred = Fin b"
  shows "physics_informed_loss rnd mean y_true y_pred ecm_soc (Fin 0) (Fin 0) =
         mse_loss rnd mean y_true y_pred"
proof -
  let ?mse = "mse_loss rnd mean y_true y_pred"
  have "physics_informed_loss rnd mean y_true y_pred ecm_soc (Fin 0) (Fin 0) =
      fadd rnd (fadd rnd ?mse (fmul rnd (Fin 0) (Fin c))) (fmul rnd (Fin 0) (Fin b))"
    unfolding physics_informed_loss_def Let_def
    by (simp only: assms(6,7) mse_term_mse_loss [OF assms(4)])
  also have "\<dots> = fadd rnd (fadd rnd ?mse (Fin 0)) (Fin 0)"
    using assms(3) by simp
  also have "\<dots> = ?mse"
    by (simp only: fadd_zero_right [OF assms(5)])
  finally show ?thesis .
qed

lemma overflow_round_neg: "0 < B \<Longrightarrow> overflow_round B (- x) = fneg (overflow_round B x)"
  by (simp add: overflow_round_def)

lemma round32_neg: "\<forall>x. round32 (- x) = fneg (round32 x)"
  by (simp add: round32_def overflow_round_neg)

lemma round32_small: "\<bar>x\<bar> \<le> 4 \<Longrightarrow> round32 x = Fin x"
proof -
  assume a: "\<bar>x\<bar> \<le> 4"
  have "(4 :: real) = 2 ^ 2" by simp
  also have "\<dots> < 2 ^ 128" by (rule power_strict_increasing) simp_all
  finally have "\<bar>x\<bar> < 2 ^ 128" using a by simp
  then show ?thesis by (auto simp: round32_def overflow_round_def)
qed

theorem physics_loss_zero_weights_witness:
  "round32 0 = Fin 0 \<and>
   coulomb_term round32 (seq_mean round32) [Fin 0, Fin (1 / 2)] [Fin (1 / 2), Fin 0] = Fin (1 / 4) \<and>
   boundary_term round32 (seq_mean round32) [Fin 0, Fin (1 / 2)] = Fin 0 \<and>
   mse_loss round32 (seq_mean round32) [Fin 1, Fin 0] [Fin 0, Fin (1 / 2)] = Fin (5 / 8) \<and>
   physics_informed_loss round32 (seq_mean round32) [Fin 1, Fin 0] [Fin 0, Fin (1 / 2)]
     [Fin (1 / 2), Fin 0] (Fin 0) (Fin 0) = Fin (5 / 8)"
proof -
  have z: "round32 0 = Fin 0" by (simp add: round32_small)
  have c: "coulomb_term round32 (seq_mean round32) [Fin 0, Fin (1 / 2)] [Fin (1 / 2), Fin 0]
      = Fin (1 / 4)"
    by (simp add: coulomb_term_def seq_mean_def seq_sum_def tf_square_def fsub_def round32_small)
  have b: "boundary_term round32 (seq_mean round32) [Fin 0, Fin (1 / 2)] = Fin 0"
    by (simp add: boundary_term_def seq_mean_def seq_sum_def fsub_def round32_small)
  have m: "mse_loss round32 (seq_mean round32) [Fin 1, Fin 0] [Fin 0, Fin (1 / 2)] = Fin (5 / 8)"
    by (simp add: mse_loss_def seq_mean_def seq_sum_def tf_square_def fsub_def round32_small)
  have k: "\<forall>v. mse_loss round32 (seq_mean round32) [Fin 1, Fin 0] [Fin 0, Fin (1 / 2)] = Fin v
      \<longrightarrow> round32 v = Fin v"
    by (simp add: m round32_small)
  have "physics_informed_loss round32 (seq_mean round32) [Fin 1, Fin 0] [Fin 0, Fin (1 / 2)]
      [Fin (1 / 2), Fin 0] (Fin 0) (Fin 0)
      = mse_loss round32 (seq_mean round32) [Fin 1, Fin 0] [Fin 0, Fin (1 / 2)]"
    by (rule physics_loss_zero_weights [OF _ _ z round32_neg k c b]) simp_all
  then show ?thesis using z c b m by simp
qed

text \<open>
  C10 as stated fails when a term overflows: with the baseline value \<open>2 ^ 100\<close> the
  square of the difference to it is infinite in \<open>float32\<close>, so is the coulomb term, and
  its product with the weight 0 is NaN, against the mean squared error 0.625.
\<close>

theorem physics_loss_overflow_counterexample:
  "length [Fin 1, Fin 0] = length [Fin 0, Fin (1 / 2)] \<and>
   length [Fin (2 ^ 100), Fin 0] = length [Fin 0, Fin (1 / 2)] \<and>
   mse_loss round32 (seq_mean round32) [Fin 1, Fin 0] [Fin 0, Fin (1 / 2)] = Fin (5 / 8) \<and>
   physics_informed_loss round32 (seq_mean round32) [Fin 1, Fin 0] [Fin 0, Fin (1 / 2)]
     [Fin (2 ^ 100), Fin 0] (Fin 0) (Fin 0) = NaN"
proof -
  have m: "mse_loss round32 (seq_mean round32) [Fin 1, Fin 0] [Fin 0, Fin (1 / 2)] = Fin (5 / 8)"
    by (simp add: mse_loss_def seq_mean_def seq_sum_def tf_square_def fsub_def round32_small)
  have g: "coulomb_term round32 (seq_mean round32) [Fin 0, Fin (1 / 2)] [Fin x, Fin 0] = PInf"
    if "0 < x" and "x < 2 ^ 128" and "2 ^ 128 \<le> x * x" for x :: real
  proof -
    have "fsub round32 (Fin 0) (Fin x) = Fin (- x)"
      using that(1,2) by (simp add: fsub_def round32_def overflow_round_def)
    moreover have "tf_square round32 (Fin (- x)) = PInf"
      using that(3) by (simp add: tf_square_def round32_def overflow_round_def)
    moreover have "tf_square round32 (fsub round32 (Fin (1 / 2)) (Fin 0)) = Fin (1 / 4)"
      by (simp add: fsub_def tf_square_def round32_small)
    ultimately show ?thesis
      by (simp add: coulomb_term_def seq_mean_def seq_sum_def)
  qed
  have "(2 :: real) ^ 100 < 2 ^ 128" by (rule power_strict_increasing) simp_all
  moreover have "(2 :: real) ^ 128 \<le> 2 ^ 100 * 2 ^ 100"
  proof -
    have "(2 :: real) ^ 128 \<le> 2 ^ 200" by (rule power_increasing) simp_all
    also have "\<dots> = 2 ^ 100 * 2 ^ 100" by (simp add: power_add [symmetric])
    finally show ?thesis .
  qed
  ultimately have "coulomb_term round32 (seq_mean round32) [Fin 0, Fin (1 / 2)]
      [Fin (2 ^ 100), Fin 0] = PInf"
    by (intro g) simp_all
  then have "physics_informed_loss round32 (seq_mean round32) [Fin 1, Fin 0] [Fin 0, Fin (1 / 2)]
      [Fin (2 ^ 100), Fin 0] (Fin 0) (Fin 0) = NaN"
    by (intro physics_loss_nonfinite_term) simp
  then show ?thesis using m by simp
qed

section \<open>Properties of the checkpoint file\<close>

text \<open>
  C2, as amended. The checkpoint file of a run is determined by the loss kind and the
  name of the model: for two runs with loss kinds among \<open>mse\<close> and \<open>physics\<close> the files
  are the same exactly when the loss kinds and the model names are the same. The
  composition flag plays no part.
\<close>

theorem checkpoint_path_key:
  assumes "lt1 = ''mse'' \<or> lt1 = ''physics''" and "lt2 = ''mse'' \<or> lt2 = ''physics''"
  shows "(checkpoint_path lt1 e1 n1 = checkpoint_path lt2 e2 n2) = (lt1 = lt2 \<and> n1 = n2)"
  using assms by (auto simp: checkpoint_path_def)

theorem checkpoint_path_key_witness:
  "(''mse'' = ''mse'' \<or> ''mse'' = ''physics'') \<and> (''physics'' = ''mse'' \<or> ''physics'' = ''physics'') \<and>
   checkpoint_path ''mse'' True ''functional'' \<noteq> checkpoint_path ''physics'' True ''functional'' \<and>
   checkpoint_path ''mse'' True ''functional'' \<noteq> checkpoint_path ''mse'' True ''functional_1''"
  using checkpoint_path_key [of "''mse''" "''physics''" True "''functional''" True "''functional''"]
    checkpoint_path_key [of "''mse''" "''mse''" True "''functional''" True "''functional_1''"]
  by simp

text \<open>
  C2 as stated fails: two runs that differ in the composition flag alone use one file.
\<close>

theorem checkpoint_path_collision:
  "(''mse'', False, ''functional'') \<noteq> (''mse'', True, ''functional'') \<and>
   checkpoint_path ''mse'' False ''functional'' = checkpoint_path ''mse'' True ''functional''"
  by (simp add: checkpoint_path_def)

section \<open>Properties of the trainer\<close>

lemma fl_less_not_NaN: "fl_less a b \<Longrightarrow> a \<noteq> NaN \<and> b \<noteq> NaN"
  by (cases a; cases b) auto

lemma fl_less_total: "a \<noteq> NaN \<Longrightarrow> b \<noteq> NaN \<Longrightarrow> a \<noteq> b \<Longrightarrow> \<not> fl_less a b \<Longrightarrow> fl_less b a"
  by (cases a; cases b) auto

lemma fl_less_trans: "fl_less a b \<Longrightarrow> fl_less b c \<Longrightarrow> fl_less a c"
  by (cases a; cases b; cases c) auto

lemma fl_less_irrefl: "\<not> fl_less a a"
  by (cases a) auto



lemma train_batches_valid:
  assumes "loss_type = ''mse'' \<or> loss_type = ''physics''"
  shows "\<exists>losses. train_batches fit loss_type ecm_in train_ds w opt acc =
           Inr (fst (fit_batches fit loss_type ecm_in train_ds (w, opt)),
                snd (fit_batches fit loss_type ecm_in train_ds (w, opt)), losses)"
  using assms
  by (induction train_ds arbitrary: w opt acc) (auto split: prod.splits)

lemma val_batches_valid:
  assumes "loss_type = ''mse'' \<or> loss_type = ''physics''"
  shows "val_batches vloss loss_type ecm_in val_ds w acc =
           Inr (acc @ map (vloss loss_type ecm_in w) val_ds)"
  using assms
  by (induction val_ds arbitrary: acc) auto

lemma end_of_epoch_simps:
  "t_weights (end_of_epoch p avg_tl v st) = t_weights st"
  "t_opt (end_of_epoch p avg_tl v st) = t_opt st"
  "best_val_loss (end_of_epoch p avg_tl v st) = (if fl_less v (best_val_loss st) then v else best_val_loss st)"
  "files (end_of_epoch p avg_tl v st) =
     (if fl_less v (best_val_loss st) then (files st)(p \<mapsto> t_weights st) else files st)"
  "train_loss_history (end_of_epoch p avg_tl v st) = train_loss_history st @ [avg_tl]"
  "val_loss_history (end_of_epoch p avg_tl v st) = val_loss_history st @ [v]"
  by (simp_all add: end_of_epoch_def Let_def)

lemma run_epoch_valid:
  assumes "loss_type = ''mse'' \<or> loss_type = ''physics''"
  shows "\<exists>avg_tl. run_epoch fit vloss model_name train_ds val_ds loss_type ecm_in st =
           Inr (end_of_epoch (checkpoint_path loss_type ecm_in model_name) avg_tl
                  (epoch_val_loss fit vloss train_ds val_ds loss_type ecm_in (t_weights st, t_opt st) 0)
                  (st\<lparr>t_weights := fst (fit_batches fit loss_type ecm_in train_ds (t_weights st, t_opt st)),
                      t_opt := snd (fit_batches fit loss_type ecm_in train_ds (t_weights st, t_opt st))\<rparr>))"
proof -
  obtain losses where
    "train_batches fit loss_type ecm_in train_ds (t_weights st) (t_opt st) [] =
       Inr (fst (fit_batches fit loss_type ecm_in train_ds (t_weights st, t_opt st)),
            snd (fit_batches fit loss_type ecm_in train_ds (t_weights st, t_opt st)), losses)"
    using train_batches_valid [OF assms, of fit ecm_in train_ds "t_weights st" "t_opt st" "[]"]
    by (elim exE)
  then show ?thesis
    by (intro exI [of _ "np_mean_fl losses"])
      (simp add: run_epoch_def val_batches_valid [OF assms] epoch_val_loss_def weights_after_def)
qed

lemma epoch_val_loss_shift:
  "epoch_val_loss fit vloss train_ds val_ds loss_type ecm_in
     (fit_batches fit loss_type ecm_in train_ds s) k =
   epoch_val_loss fit vloss train_ds val_ds loss_type ecm_in s (Suc k)"
  by (simp add: epoch_val_loss_def weights_after_def funpow_swap1)

lemma weights_after_shift:
  "weights_after fit loss_type ecm_in train_ds (fit_batches fit loss_type ecm_in train_ds s) k =
   weights_after fit loss_type ecm_in train_ds s (Suc k)"
  by (simp add: weights_after_def funpow_swap1)

lemma train_epochs_unchanged:
  assumes "loss_type = ''mse'' \<or> loss_type = ''physics''"
    and "\<forall>j<n. \<not> fl_less (epoch_val_loss fit vloss train_ds val_ds loss_type ecm_in
                              (t_weights st, t_opt st) j) (best_val_loss st)"
  shows "\<exists>st'. train_epochs fit vloss model_name train_ds val_ds loss_type ecm_in n st = Inr st' \<and>
           files st' = files st \<and> best_val_loss st' = best_val_loss st"
  using assms(2)
proof (induction n arbitrary: st)
  case 0
  then show ?case by simp
next
  case (Suc n)
  let ?s = "(t_weights st, t_opt st)"
  let ?F = "fit_batches fit loss_type ecm_in train_ds"
  let ?V = "epoch_val_loss fit vloss train_ds val_ds loss_type ecm_in"
  obtain avg_tl where ep: "run_epoch fit vloss model_name train_ds val_ds loss_type ecm_in st =
      Inr (end_of_epoch (checkpoint_path loss_type ecm_in model_name) avg_tl (?V ?s 0)
             (st\<lparr>t_weights := fst (?F ?s), t_opt := snd (?F ?s)\<rparr>))"
    (is "_ = Inr ?st1")
    using run_epoch_valid [OF assms(1)] by blast
  have no0: "\<not> fl_less (?V ?s 0) (best_val_loss st)" using Suc.prems by simp
  have pair1: "(t_weights ?st1, t_opt ?st1) = ?F ?s" by (simp add: end_of_epoch_simps)
  have best1: "best_val_loss ?st1 = best_val_loss st" using no0 by (simp add: end_of_epoch_simps)
  have files1: "files ?st1 = files st" using no0 by (simp add: end_of_epoch_simps)
  have "\<forall>j<n. \<not> fl_less (?V (t_weights ?st1, t_opt ?st1) j) (best_val_loss ?st1)"
    unfolding pair1 best1 epoch_val_loss_shift using Suc.prems by auto
  from Suc.IH [OF this] show ?case
    by (simp only: train_epochs.simps ep sum.case best1 files1)
qed

lemma train_epochs_best:
  assumes "loss_type = ''mse'' \<or> loss_type = ''physics''"
    and "k < n"
    and "fl_less (epoch_val_loss fit vloss train_ds val_ds loss_type ecm_in (t_weights st, t_opt st) k)
           (best_val_loss st)"
    and "\<forall>j<n. \<not> fl_less
           (epoch_val_loss fit vloss train_ds val_ds loss_type ecm_in (t_weights st, t_opt st) j)
           (epoch_val_loss fit vloss train_ds val_ds loss_type ecm_in (t_weights st, t_opt st) k)"
    and "\<forall>j<k. epoch_val_loss fit vloss train_ds val_ds loss_type ecm_in (t_weights st, t_opt st) j \<noteq>
           epoch_val_loss fit vloss train_ds val_ds loss_type ecm_in (t_weights st, t_opt st) k"
  shows "\<exists>st'. train_epochs fit vloss model_name train_ds val_ds loss_type ecm_in n st = Inr st' \<and>
           files st' (checkpoint_path loss_type ecm_in model_name) =
             Some (weights_after fit loss_type ecm_in train_ds (t_weights st, t_opt st) (Suc k))"
  using assms(2-)
proof (induction n arbitrary: st k)
  case 0
  then show ?case by simp
next
  case (Suc n)
  let ?s = "(t_weights st, t_opt st)"
  let ?F = "fit_batches fit loss_type ecm_in train_ds"
  let ?V = "epoch_val_loss fit vloss train_ds val_ds loss_type ecm_in"
  let ?p = "checkpoint_path loss_type ecm_in model_name"
  obtain avg_tl where ep: "run_epoch fit vloss model_name train_ds val_ds loss_type ecm_in st =
      Inr (end_of_epoch ?p avg_tl (?V ?s 0)
             (st\<lparr>t_weights := fst (?F ?s), t_opt := snd (?F ?s)\<rparr>))"
    (is "_ = Inr ?st1")
    using run_epoch_valid [OF assms(1)] by blast
  have pair1: "(t_weights ?st1, t_opt ?st1) = ?F ?s" by (simp add: end_of_epoch_simps)
  show ?case
  proof (cases k)
    case 0
    with Suc.prems have less0: "fl_less (?V ?s 0) (best_val_loss st)" by simp
    have best1: "best_val_loss ?st1 = ?V ?s 0" using less0 by (simp add: end_of_epoch_simps)
    have files1: "files ?st1 ?p = Some (fst (?F ?s))" using less0 by (simp add: end_of_epoch_simps)
    have "\<forall>j<n. \<not> fl_less (?V (t_weights ?st1, t_opt ?st1) j) (best_val_loss ?st1)"
      unfolding pair1 best1 epoch_val_loss_shift using Suc.prems(3) 0 by auto
    from train_epochs_unchanged [OF assms(1) this, of model_name]
    obtain st' where "train_epochs fit vloss model_name train_ds val_ds loss_type ecm_in n ?st1 = Inr st'"
      and "files st' = files ?st1" by blast
    then show ?thesis using files1 0
      by (simp only: train_epochs.simps ep sum.case) (simp add: weights_after_def)
  next
    case (Suc k')
    have Vk: "fl_less (?V ?s k) (best_val_loss st)" using Suc.prems by simp
    have "fl_less (?V ?s k) (best_val_loss ?st1)"
    proof (cases "fl_less (?V ?s 0) (best_val_loss st)")
      case True
      have "?V ?s 0 \<noteq> NaN" "?V ?s k \<noteq> NaN"
        using True Vk fl_less_not_NaN by blast+
      moreover have "?V ?s 0 \<noteq> ?V ?s k" using Suc.prems(4) Suc by simp
      moreover have "\<not> fl_less (?V ?s 0) (?V ?s k)" using Suc.prems(3) by simp
      ultimately have "fl_less (?V ?s k) (?V ?s 0)" by (intro fl_less_total) auto
      then show ?thesis using True by (simp add: end_of_epoch_simps)
    next
      case False
      then show ?thesis using Vk by (simp add: end_of_epoch_simps)
    qed
    then have a: "fl_less (?V (t_weights ?st1, t_opt ?st1) k') (best_val_loss ?st1)"
      unfolding pair1 epoch_val_loss_shift Suc .
    have b: "\<forall>j<n. \<not> fl_less (?V (t_weights ?st1, t_opt ?st1) j) (?V (t_weights ?st1, t_opt ?st1) k')"
      unfolding pair1 epoch_val_loss_shift using Suc.prems(3) Suc by auto
    have c: "\<forall>j<k'. ?V (t_weights ?st1, t_opt ?st1) j \<noteq> ?V (t_weights ?st1, t_opt ?st1) k'"
      unfolding pair1 epoch_val_loss_shift using Suc.prems(4) Suc by auto
    have d: "k' < n" using Suc.prems(1) Suc by simp
    from Suc.IH [OF d a b c] show ?thesis
      unfolding pair1 weights_after_shift Suc
      by (simp only: train_epochs.simps ep sum.case)
  qed
qed

lemma best_epoch_exists:
  fixes V :: "nat \<Rightarrow> fl"
  assumes "\<exists>j<n. fl_less (V j) PInf"
  shows "\<exists>k<n. fl_less (V k) PInf \<and> (\<forall>j<n. \<not> fl_less (V j) (V k)) \<and> (\<forall>j<k. V j \<noteq> V k)"
  using assms
proof (induction n)
  case 0
  then show ?case by simp
next
  case (Suc n)
  show ?case
  proof (cases "\<exists>j<n. fl_less (V j) PInf")
    case True
    from Suc.IH [OF True] obtain k where k: "k < n" "fl_less (V k) PInf"
      "\<forall>j<n. \<not> fl_less (V j) (V k)" "\<forall>j<k. V j \<noteq> V k" by blast
    show ?thesis
    proof (cases "fl_less (V n) (V k)")
      case less: True
      have "fl_less (V n) PInf" using less k(2) by (rule fl_less_trans)
      moreover have "\<not> fl_less (V j) (V n)" if "j < Suc n" for j
      proof (cases "j = n")
        case True
        then show ?thesis by (simp add: fl_less_irrefl)
      next
        case False
        then have "j < n" using that by simp
        then have "\<not> fl_less (V j) (V k)" using k(3) by simp
        then show ?thesis using less fl_less_trans by blast
      qed
      moreover have "V j \<noteq> V n" if "j < n" for j
        using k(3) that less by auto
      ultimately show ?thesis by (intro exI [of _ n]) auto
    next
      case False
      then have "\<forall>j<Suc n. \<not> fl_less (V j) (V k)" using k(3) by (auto simp: less_Suc_eq)
      then show ?thesis using k by (intro exI [of _ k]) auto
    qed
  next
    case False
    then have n: "fl_less (V n) PInf" using Suc.prems by (auto simp: less_Suc_eq)
    have none: "\<not> fl_less (V j) x" if "j < n" for j x
    proof -
      have "\<not> fl_less (V j) PInf" using False that by simp
      then show ?thesis by (cases "V j"; cases x) auto
    qed
    have "V j \<noteq> V n" if "j < n" for j using False that n by auto
    moreover have "\<forall>j<Suc n. \<not> fl_less (V j) (V n)"
      using none by (auto simp: less_Suc_eq fl_less_irrefl)
    ultimately show ?thesis using n by (intro exI [of _ n]) auto
  qed
qed

text \<open>
  C3, as amended. In a run with the loss kind \<open>mse\<close> or \<open>physics\<close> in which the mean
  validation loss of some epoch is below plus infinity (so it is not NaN), there is a
  first epoch whose mean validation loss no other epoch undercuts; the run returns, and
  the final weights of the model are the weights at the end of that epoch, whatever the
  later epochs did.
\<close>

theorem train_model_restores_best:
  assumes "loss_type = ''mse'' \<or> loss_type = ''physics''"
    and "\<exists>j<epochs. fl_less (epoch_val_loss fit vloss train_ds val_ds loss_type ecm_in (w0, opt0) j) PInf"
  shows "\<exists>k<epochs.
           fl_less (epoch_val_loss fit vloss train_ds val_ds loss_type ecm_in (w0, opt0) k) PInf \<and>
           (\<forall>j<epochs. \<not> fl_less
              (epoch_val_loss fit vloss train_ds val_ds loss_type ecm_in (w0, opt0) j)
              (epoch_val_loss fit vloss train_ds val_ds loss_type ecm_in (w0, opt0) k)) \<and>
           (\<forall>j<k. epoch_val_loss fit vloss train_ds val_ds loss_type ecm_in (w0, opt0) j \<noteq>
              epoch_val_loss fit vloss train_ds val_ds loss_type ecm_in (w0, opt0) k) \<and>
           (\<exists>st. train_model fit vloss model_name w0 opt0 files0 train_ds val_ds
                    loss_type ecm_in epochs = Inr st \<and>
                 t_weights st = weights_after fit loss_type ecm_in train_ds (w0, opt0) (Suc k))"
proof -
  let ?V = "epoch_val_loss fit vloss train_ds val_ds loss_type ecm_in (w0, opt0)"
  let ?st0 = "\<lparr>t_weights = w0, t_opt = opt0, best_val_loss = PInf,
               train_loss_history = [], val_loss_history = [], files = files0\<rparr>"
  from best_epoch_exists [OF assms(2)] obtain k where k: "k < epochs" "fl_less (?V k) PInf"
    "\<forall>j<epochs. \<not> fl_less (?V j) (?V k)" "\<forall>j<k. ?V j \<noteq> ?V k" by blast
  have "\<exists>st'. train_epochs fit vloss model_name train_ds val_ds loss_type ecm_in epochs ?st0 = Inr st' \<and>
           files st' (checkpoint_path loss_type ecm_in model_name) =
             Some (weights_after fit loss_type ecm_in train_ds (t_weights ?st0, t_opt ?st0) (Suc k))"
    using k by (intro train_epochs_best [OF assms(1)]) simp_all
  then obtain st' where
    "train_epochs fit vloss model_name train_ds val_ds loss_type ecm_in epochs ?st0 = Inr st'"
    "files st' (checkpoint_path loss_type ecm_in model_name) =
       Some (weights_after fit loss_type ecm_in train_ds (w0, opt0) (Suc k))"
    by auto
  then have "\<exists>st. train_model fit vloss model_name w0 opt0 files0 train_ds val_ds
                    loss_type ecm_in epochs = Inr st \<and>
                 t_weights st = weights_after fit loss_type ecm_in train_ds (w0, opt0) (Suc k)"
    by (simp add: train_model_def)
  with k show ?thesis by blast
qed

lemma example_val_losses:
  "map (epoch_val_loss counting_fit (listed_vloss [Fin 5, Fin 3, Fin 4, Fin 2, Fin 6]) [()] [()]
          ''mse'' False (0, ())) [0, 1, 2, 3, 4] = [Fin 5, Fin 3, Fin 4, Fin 2, Fin 6]"
  by (simp add: epoch_val_loss_def weights_after_def counting_fit_def listed_vloss_def
      np_mean_fl_def eval_nat_numeral)

text \<open>
  The run with the validation losses 5, 3, 4, 2, 6: the restored weights are those of
  the fourth epoch, the one with the loss 2.
\<close>

theorem train_model_restores_best_witness:
  "(''mse'' = ''mse'' \<or> ''mse'' = ''physics'') \<and>
   map (epoch_val_loss counting_fit (listed_vloss [Fin 5, Fin 3, Fin 4, Fin 2, Fin 6]) [()] [()]
          ''mse'' False (0, ())) [0, 1, 2, 3, 4] = [Fin 5, Fin 3, Fin 4, Fin 2, Fin 6] \<and>
   (\<exists>st. train_model counting_fit (listed_vloss [Fin 5, Fin 3, Fin 4, Fin 2, Fin 6])
            ''functional'' 0 () Map.empty [()] [()] ''mse'' False 5 = Inr st \<and>
         t_weights st = weights_after counting_fit ''mse'' False [()] (0, ()) (Suc 3) \<and>
         t_weights st = 4)"
proof -
  let ?V = "epoch_val_loss counting_fit (listed_vloss [Fin 5, Fin 3, Fin 4, Fin 2, Fin 6]) [()] [()]
          ''mse'' False (0, ())"
  have v: "(''mse'' = ''mse'' \<or> ''mse'' = ''physics'')" by simp
  have vals: "map ?V [0, 1, 2, 3, 4] = [Fin 5, Fin 3, Fin 4, Fin 2, Fin 6]"
    by (rule example_val_losses)
  then have h: "\<exists>j<5. fl_less (?V j) PInf"
    by (intro exI [of _ 0]) simp
  from train_model_restores_best [OF v h, of "''functional''" "Map.empty"]
  obtain k st where k: "k < 5" "\<forall>j<5. \<not> fl_less (?V j) (?V k)"
    and st: "train_model counting_fit (listed_vloss [Fin 5, Fin 3, Fin 4, Fin 2, Fin 6])
               ''functional'' 0 () Map.empty [()] [()] ''mse'' False 5 = Inr st"
       "t_weights st = weights_after counting_fit ''mse'' False [()] (0, ()) (Suc k)"
    by blast
  have "\<not> fl_less (?V 3) (?V k)" using k(2) by simp
  moreover have "k = 0 \<or> k = 1 \<or> k = 2 \<or> k = 3 \<or> k = 4" using k(1) by auto
  ultimately have k3: "k = 3" using vals by auto
  have "t_weights st = 4"
    unfolding st(2) k3 by (simp add: weights_after_def counting_fit_def eval_nat_numeral)
  with st k3 have "\<exists>st. train_model counting_fit (listed_vloss [Fin 5, Fin 3, Fin 4, Fin 2, Fin 6])
            ''functional'' 0 () Map.empty [()] [()] ''mse'' False 5 = Inr st \<and>
         t_weights st = weights_after counting_fit ''mse'' False [()] (0, ()) (Suc 3) \<and>
         t_weights st = 4"
    by (intro exI [of _ st]) simp
  with v vals show ?thesis by (intro conjI)
qed

text \<open>
  C3 as stated fails for a run of one epoch whose mean validation loss is NaN: the
  comparison with the best loss is false, nothing is saved, and \<open>load_weights\<close> finds
  no file.
\<close>

theorem train_model_nan_counterexample:
  "train_model counting_fit (listed_vloss [NaN]) ''functional'' 0 () Map.empty [()] [()]
     ''mse'' False 1 = Inl (FileNotFoundError ''best_mse_functional.weights.h5'')"
  by (simp add: train_model_def run_epoch_def end_of_epoch_def checkpoint_path_def
      counting_fit_def listed_vloss_def np_mean_fl_def)







section \<open>Properties of the evaluator\<close>

lemma collect_map_Inr:
  "\<forall>x\<in>set xs. f x = Inr (g x) \<Longrightarrow> collect (map f xs) = Inr (map g xs)"
  by (induction xs) simp_all

lemma bc_rows_same_shape:
  assumes "list_all2 (\<lambda>r s. length r = length s) a b"
  shows "bc_rows err f a b = Inr (map2 (map2 f) a b)"
proof -
  have len: "length a = length b" using assms by (rule list_all2_lengthD)
  have "\<forall>p\<in>set (zip a b). (\<lambda>(r, s). bc_row err f r s) p = Inr ((\<lambda>(r, s). map2 f r s) p)"
    using assms by (auto simp: bc_row_def list_all2_iff)
  then have "collect (map (\<lambda>(r, s). bc_row err f r s) (zip a b))
      = Inr (map (\<lambda>(r, s). map2 f r s) (zip a b))"
    by (rule collect_map_Inr)
  then show ?thesis using len by (simp add: bc_rows_def)
qed

lemma has_shape_all2:
  "has_shape B L a \<Longrightarrow> has_shape B L b \<Longrightarrow> list_all2 (\<lambda>r s. length r = length s) a b"
  by (auto simp: has_shape_def list_all2_conv_all_nth list_all_length)

lemma has_shape_map2:
  "has_shape B L a \<Longrightarrow> has_shape B L b \<Longrightarrow> has_shape B L (map2 (map2 f) a b)"
  by (auto simp: has_shape_def list_all_length)

lemma np_squeeze_batch_matrix:
  assumes "has_shape B L t" and "2 \<le> B" and "2 \<le> L"
  shows "np_squeeze_batch t = Matrix t"
proof -
  have "length t \<noteq> 1" using assms(1,2) by (simp add: has_shape_def)
  moreover have "\<not> list_all (\<lambda>r. length r = 1) t"
  proof
    assume a: "list_all (\<lambda>r. length r = 1) t"
    have "t \<noteq> []" using assms(1,2) by (auto simp: has_shape_def)
    then obtain r where "r \<in> set t" by (cases t) auto
    then have "length r = 1" "length r = L"
      using a assms(1) by (auto simp: has_shape_def list_all_iff)
    then show False using assms(3) by simp
  qed
  ultimately show ?thesis by (simp add: np_squeeze_batch_def)
qed

lemma those_the_matrix: "those (map the_matrix (map Matrix ms)) = Some ms"
  by (induction ms) simp_all

lemma those_the_vector: "ms \<noteq> [] \<Longrightarrow> those (map the_vector (map Matrix ms)) = None"
  by (cases ms) simp_all

lemma np_concatenate_matrices:
  assumes "ms \<noteq> []" and "\<forall>m\<in>set ms. list_all (\<lambda>r. length r = L) m"
  shows "np_concatenate (map Matrix ms) = Inr (Matrix (concat ms))"
proof -
  have all: "\<forall>r\<in>set (concat ms). length r = L" using assms(2) by (auto simp: list_all_iff)
  have "list_all (\<lambda>r. length r = length (hd (concat ms))) (concat ms)"
    unfolding list_all_iff
  proof
    fix r
    assume r: "r \<in> set (concat ms)"
    then have "concat ms \<noteq> []" by (metis empty_iff list.set(1))
    then have "hd (concat ms) \<in> set (concat ms)" by (rule hd_in_set)
    then have "length (hd (concat ms)) = L" using all by blast
    moreover have "length r = L" using all r by blast
    ultimately show "length r = length (hd (concat ms))" by simp
  qed
  then show ?thesis
    unfolding np_concatenate_def those_the_matrix those_the_vector [OF assms(1)]
    using assms(1) by simp
qed

lemma arr_map2_matrices:
  assumes "list_all2 (\<lambda>r s. length r = length s) a b"
  shows "arr_map2 f (Matrix a) (Matrix b) = Inr (Matrix (map2 (map2 f) a b))"
  by (simp add: arr_map2_def bc_rows_same_shape [OF assms] of_rows_def)

lemma list_all2_same_length_rows:
  assumes "length a = length b"
    and "\<forall>r\<in>set a. length r = L" and "\<forall>s\<in>set b. length s = L"
  shows "list_all2 (\<lambda>r s. length r = length s) a b"
  using assms by (auto simp: list_all2_conv_all_nth)

lemma r2_of_zero_division: "r2_of rnd ss_res (Fin 0) = r2_zero_division ss_res"
  by (cases ss_res) (simp_all add: r2_of_def fsub_def inf_of_sign_def)

text \<open>
  When the mean that NumPy computes of equal true values is their common value, the
  sum of the squared deviations is zero.
\<close>

lemma ss_tot_constant:
  assumes "\<forall>r\<in>set m. \<forall>t\<in>set r. t = Fin c"
    and "np_mean (Matrix m) = Fin c"
    and "rnd 0 = Fin 0"
    and "\<forall>a. (\<forall>x\<in>set (elements a). x = Fin 0) \<longrightarrow> np_sum a = Fin 0"
  shows "ss_tot_of rnd np_sum np_mean (Matrix m) = Fin 0"
proof -
  let ?sq = "arr_map (\<lambda>d. fmul rnd d d) (arr_map (\<lambda>t. fsub rnd t (np_mean (Matrix m))) (Matrix m))"
  have z: "fmul rnd (fsub rnd t (Fin c)) (fsub rnd t (Fin c)) = Fin 0" if "t = Fin c" for t
    using that assms(3) by (simp add: fsub_def)
  have el: "elements ?sq
      = concat (map (map (\<lambda>t. fmul rnd (fsub rnd t (Fin c)) (fsub rnd t (Fin c)))) m)"
    by (simp add: assms(2) comp_def)
  have "\<forall>x\<in>set (elements ?sq). x = Fin 0"
    unfolding el
  proof
    fix x
    assume "x \<in> set (concat (map (map (\<lambda>t. fmul rnd (fsub rnd t (Fin c)) (fsub rnd t (Fin c)))) m))"
    then obtain r t where rt: "r \<in> set m" "t \<in> set r"
      and x: "x = fmul rnd (fsub rnd t (Fin c)) (fsub rnd t (Fin c))"
      by auto
    have "t = Fin c" using assms(1) rt by blast
    then show "x = Fin 0" unfolding x by (rule z)
  qed
  then have "np_sum ?sq = Fin 0" using assms(4) by blast
  then show ?thesis by (simp add: ss_tot_of_def)
qed

text \<open>
  The evaluation of batches of at least two samples of at least two points each
  raises nothing.
\<close>

lemma evaluate_model_returns:
  assumes "val_ds \<noteq> []" and "2 \<le> L"
    and "\<forall>(features, ecm_soc, true_soc)\<in>set val_ds. \<exists>B\<ge>2.
           has_shape B L true_soc \<and> has_shape B L ecm_soc \<and> has_shape B L (forward w features)"
  shows "evaluate_model rnd np_sum np_mean forward w val_ds ecm_in =
           metrics_of rnd np_sum np_mean (Matrix (val_preds rnd forward w val_ds ecm_in))
             (Matrix (val_trues val_ds))"
    and "length (val_preds rnd forward w val_ds ecm_in) = length (val_trues val_ds)"
    and "\<forall>r\<in>set (val_preds rnd forward w val_ds ecm_in). length r = L"
    and "\<forall>r\<in>set (val_trues val_ds). length r = L"
proof -
  let ?pb = "batch_pred rnd forward w ecm_in"
  let ?tb = "\<lambda>(features, ecm_soc, true_soc). true_soc :: tensor"
  have shapes: "\<exists>B\<ge>2. has_shape B L (?pb b) \<and> has_shape B L (?tb b)" if "b \<in> set val_ds" for b
  proof -
    obtain f e t where b: "b = (f, e, t)" by (cases b)
    have "\<exists>B\<ge>2. has_shape B L t \<and> has_shape B L e \<and> has_shape B L (forward w f)"
      using assms(3) that unfolding b by fastforce
    then obtain B where B: "2 \<le> B" "has_shape B L t" "has_shape B L e" "has_shape B L (forward w f)"
      by blast
    show ?thesis
      using B has_shape_map2 [OF B(3,4), of "fadd rnd"] by (auto simp: b batch_pred_def)
  qed
  have batch: "eval_batch rnd forward w ecm_in b = Inr (Matrix (?pb b), Matrix (?tb b))"
    if "b \<in> set val_ds" for b
  proof -
    obtain f e t where b: "b = (f, e, t)" by (cases b)
    have "\<exists>B\<ge>2. has_shape B L t \<and> has_shape B L e \<and> has_shape B L (forward w f)"
      using assms(3) that unfolding b by fastforce
    then obtain B where B: "2 \<le> B" "has_shape B L t" "has_shape B L e" "has_shape B L (forward w f)"
      by blast
    have add: "bc_rows InvalidArgumentError (fadd rnd) e (forward w f)
        = Inr (map2 (map2 (fadd rnd)) e (forward w f))"
      by (rule bc_rows_same_shape) (rule has_shape_all2 [OF B(3,4)])
    have sq_t: "np_squeeze_batch t = Matrix t"
      using B(2,1) assms(2) by (rule np_squeeze_batch_matrix)
    have sq_p: "np_squeeze_batch (forward w f) = Matrix (forward w f)"
      using B(4,1) assms(2) by (rule np_squeeze_batch_matrix)
    have sq_a: "np_squeeze_batch (map2 (map2 (fadd rnd)) e (forward w f))
        = Matrix (map2 (map2 (fadd rnd)) e (forward w f))"
      using has_shape_map2 [OF B(3,4)] B(1) assms(2) by (rule np_squeeze_batch_matrix)
    show ?thesis
      by (simp add: b eval_batch_def batch_pred_def add sq_t sq_p sq_a)
  qed
  have coll: "collect (map (eval_batch rnd forward w ecm_in) val_ds)
      = Inr (map (\<lambda>b. (Matrix (?pb b), Matrix (?tb b))) val_ds)"
    by (rule collect_map_Inr) (simp add: batch)
  have rows_p: "\<forall>m\<in>set (map ?pb val_ds). list_all (\<lambda>r. length r = L) m"
    using shapes by (auto simp: has_shape_def)
  have rows_t: "\<forall>m\<in>set (map ?tb val_ds). list_all (\<lambda>r. length r = L) m"
    using shapes by (fastforce simp: has_shape_def)
  have cp: "np_concatenate (map Matrix (map ?pb val_ds)) = Inr (Matrix (concat (map ?pb val_ds)))"
    using assms(1) rows_p by (intro np_concatenate_matrices) simp_all
  have ct: "np_concatenate (map Matrix (map ?tb val_ds)) = Inr (Matrix (concat (map ?tb val_ds)))"
    using assms(1) rows_t by (intro np_concatenate_matrices) simp_all
  show "evaluate_model rnd np_sum np_mean forward w val_ds ecm_in =
           metrics_of rnd np_sum np_mean (Matrix (val_preds rnd forward w val_ds ecm_in))
             (Matrix (val_trues val_ds))"
    using cp ct by (simp add: evaluate_model_def coll comp_def val_preds_def val_trues_def)
  have "length (?pb b) = length (?tb b)" if "b \<in> set val_ds" for b
    using shapes [OF that] by (auto simp: has_shape_def)
  then have "map (\<lambda>b. length (?pb b)) val_ds = map (\<lambda>b. length (?tb b)) val_ds"
    by simp
  then have "sum_list (map (\<lambda>b. length (?pb b)) val_ds) = sum_list (map (\<lambda>b. length (?tb b)) val_ds)"
    by (rule arg_cong)
  moreover have "length (val_preds rnd forward w val_ds ecm_in)
      = sum_list (map (\<lambda>b. length (?pb b)) val_ds)"
    by (simp add: val_preds_def length_concat comp_def)
  moreover have "length (val_trues val_ds) = sum_list (map (\<lambda>b. length (?tb b)) val_ds)"
    by (simp add: val_trues_def length_concat comp_def)
  ultimately show "length (val_preds rnd forward w val_ds ecm_in) = length (val_trues val_ds)"
    by (simp only:)
  show "\<forall>r\<in>set (val_preds rnd forward w val_ds ecm_in). length r = L"
    using rows_p by (auto simp: val_preds_def list_all_iff)
  show "\<forall>r\<in>set (val_trues val_ds). length r = L"
    using rows_t by (auto simp: val_trues_def list_all_iff)
qed

text \<open>
  C5, as amended. On validation batches of at least two samples of at least two points
  each, \<open>evaluate_model\<close> signals nothing when all the true values are equal: it returns,
  and its R squared is the result of the float division of the sum of the squared
  residuals by the sum of the squared deviations, unguarded. When the mean that NumPy
  computes is the common value, that sum is zero and R squared is NaN for a zero sum of
  squared residuals and minus infinity for a positive one.
\<close>

theorem r2_zero_variance:
  assumes "val_ds \<noteq> []" and "2 \<le> L"
    and "\<forall>(features, ecm_soc, true_soc)\<in>set val_ds. \<exists>B\<ge>2.
           has_shape B L true_soc \<and> has_shape B L ecm_soc \<and> has_shape B L (forward w features)"
    and "\<forall>(features, ecm_soc, true_soc)\<in>set val_ds. \<forall>r\<in>set true_soc. \<forall>t\<in>set r. t = Fin c"
    and "rnd 0 = Fin 0"
    and "\<forall>a. (\<forall>x\<in>set (elements a). x = Fin 0) \<longrightarrow> np_sum a = Fin 0"
  shows "(\<exists>rmse mae.
            evaluate_model rnd np_sum np_mean forward w val_ds ecm_in =
              Inr (Matrix (val_preds rnd forward w val_ds ecm_in), Matrix (val_trues val_ds),
                   rmse, mae,
                   r2_of rnd (val_ss_res rnd np_sum forward w val_ds ecm_in)
                     (val_ss_tot rnd np_sum np_mean val_ds))) \<and>
         (np_mean (Matrix (val_trues val_ds)) = Fin c \<longrightarrow>
            val_ss_tot rnd np_sum np_mean val_ds = Fin 0 \<and>
            r2_of rnd (val_ss_res rnd np_sum forward w val_ds ecm_in)
              (val_ss_tot rnd np_sum np_mean val_ds)
            = r2_zero_division (val_ss_res rnd np_sum forward w val_ds ecm_in))"
proof -
  note ev = evaluate_model_returns [where val_ds = val_ds and L = L and forward = forward
      and w = w, OF assms(1-3)]
  have "list_all2 (\<lambda>r s. length r = length s)
      (val_preds rnd forward w val_ds ecm_in) (val_trues val_ds)"
    using ev(2-4) by (rule list_all2_same_length_rows)
  then have "arr_map2 (fsub rnd) (Matrix (val_preds rnd forward w val_ds ecm_in))
      (Matrix (val_trues val_ds))
      = Inr (Matrix (map2 (map2 (fsub rnd)) (val_preds rnd forward w val_ds ecm_in)
               (val_trues val_ds)))"
    by (rule arr_map2_matrices)
  then have first: "\<exists>rmse mae.
      evaluate_model rnd np_sum np_mean forward w val_ds ecm_in =
        Inr (Matrix (val_preds rnd forward w val_ds ecm_in), Matrix (val_trues val_ds),
             rmse, mae,
             r2_of rnd (val_ss_res rnd np_sum forward w val_ds ecm_in)
               (val_ss_tot rnd np_sum np_mean val_ds))"
    by (simp add: ev(1) metrics_of_def Let_def val_ss_res_def val_ss_tot_def)
  have eq: "\<forall>r\<in>set (val_trues val_ds). \<forall>t\<in>set r. t = Fin c"
    using assms(4) by (fastforce simp: val_trues_def)
  have second: "val_ss_tot rnd np_sum np_mean val_ds = Fin 0 \<and>
      r2_of rnd (val_ss_res rnd np_sum forward w val_ds ecm_in)
        (val_ss_tot rnd np_sum np_mean val_ds)
      = r2_zero_division (val_ss_res rnd np_sum forward w val_ds ecm_in)"
    if m: "np_mean (Matrix (val_trues val_ds)) = Fin c"
  proof -
    have "val_ss_tot rnd np_sum np_mean val_ds = Fin 0"
      unfolding val_ss_tot_def using eq m assms(5,6) by (rule ss_tot_constant)
    then show ?thesis by (simp add: r2_of_zero_division)
  qed
  from first second show ?thesis by blast
qed

lemma seq_sum_zeros:
  assumes "rnd 0 = Fin 0" and "\<forall>x\<in>set xs. x = Fin 0"
  shows "seq_sum rnd xs = Fin 0"
proof -
  have "foldl (fadd rnd) (Fin 0) xs = Fin 0"
    using assms(2) by (induction xs) (simp_all add: assms(1))
  then show ?thesis by (simp add: seq_sum_def)
qed

lemma seq_np_sum_zeros:
  "\<forall>a. (\<forall>x\<in>set (elements a). x = Fin 0) \<longrightarrow> seq_np_sum round32 a = Fin 0"
  by (simp add: seq_np_sum_def seq_sum_zeros round32_small)

theorem r2_zero_variance_witness:
  "round32 0 = Fin 0 \<and>
   has_shape 2 2 ones22 \<and>
   seq_np_mean round32 (Matrix (val_trues [(ones22, zeros22, ones22)])) = Fin 1 \<and>
   map_sum id (\<lambda>(preds, trues, rmse, mae, r2). (preds, trues, r2))
     (evaluate_model round32 (seq_np_sum round32) (seq_np_mean round32) (\<lambda>w features. features) ()
        [(ones22, zeros22, ones22)] False)
   = Inr (Matrix ones22, Matrix ones22, NaN)"
proof -
  let ?ds = "[(ones22, zeros22, ones22)]"
  have z: "round32 0 = Fin 0" by (simp add: round32_small)
  have sh: "has_shape 2 2 ones22" "has_shape 2 2 zeros22"
    by (simp_all add: has_shape_def ones22_def zeros22_def)
  have shapes: "\<forall>(features, ecm_soc, true_soc)\<in>set ?ds. \<exists>B\<ge>2.
      has_shape B 2 true_soc \<and> has_shape B 2 ecm_soc \<and>
      has_shape B 2 ((\<lambda>w features. features) () features)"
    using sh by auto
  have eq: "\<forall>(features, ecm_soc, true_soc)\<in>set ?ds. \<forall>r\<in>set true_soc. \<forall>t\<in>set r. t = Fin 1"
    by (simp add: ones22_def)
  have tr: "val_trues ?ds = ones22" by (simp add: val_trues_def)
  have pr: "val_preds round32 (\<lambda>w features. features) () ?ds False = ones22"
    by (simp add: val_preds_def batch_pred_def)
  have m: "seq_np_mean round32 (Matrix (val_trues ?ds)) = Fin 1"
    unfolding tr
    by (simp add: ones22_def seq_np_mean_def seq_mean_def seq_sum_def round32_small)
  have sr: "val_ss_res round32 (seq_np_sum round32) (\<lambda>w features. features) () ?ds False = Fin 0"
    unfolding val_ss_res_def tr pr
    by (simp add: ones22_def ss_res_of_def seq_np_sum_def seq_sum_def fsub_def round32_small)
  have ne: "?ds \<noteq> []" and le: "(2 :: nat) \<le> 2" by simp_all
  note th = r2_zero_variance [of ?ds 2 "\<lambda>w features. features" "()" 1 round32
      "seq_np_sum round32" "seq_np_mean round32" False, OF ne le shapes eq z seq_np_sum_zeros]
  have "\<exists>rmse mae.
      evaluate_model round32 (seq_np_sum round32) (seq_np_mean round32) (\<lambda>w features. features) ()
        ?ds False
      = Inr (Matrix (val_preds round32 (\<lambda>w features. features) () ?ds False),
             Matrix (val_trues ?ds), rmse, mae,
             r2_of round32
               (val_ss_res round32 (seq_np_sum round32) (\<lambda>w features. features) () ?ds False)
               (val_ss_tot round32 (seq_np_sum round32) (seq_np_mean round32) ?ds))"
    using th by (rule conjunct1)
  then obtain rmse mae where ev:
    "evaluate_model round32 (seq_np_sum round32) (seq_np_mean round32) (\<lambda>w features. features) ()
        ?ds False
      = Inr (Matrix (val_preds round32 (\<lambda>w features. features) () ?ds False),
             Matrix (val_trues ?ds), rmse, mae,
             r2_of round32
               (val_ss_res round32 (seq_np_sum round32) (\<lambda>w features. features) () ?ds False)
               (val_ss_tot round32 (seq_np_sum round32) (seq_np_mean round32) ?ds))"
    by blast
  note r2a = th [THEN conjunct2, THEN mp, OF m, THEN conjunct2]
  have r2: "r2_of round32 (Fin 0)
      (val_ss_tot round32 (seq_np_sum round32) (seq_np_mean round32) ?ds) = NaN"
    using r2a unfolding sr by simp
  note ev' = ev [unfolded sr pr tr]
  show ?thesis using z sh(1) m by (simp add: ev' r2)
qed

text \<open>
  C5 as stated fails: for two samples of two true values 1 and predictions 0 the
  evaluator raises nothing and returns minus infinity as R squared.
\<close>

theorem r2_zero_variance_counterexample:
  "map_sum id (\<lambda>(preds, trues, rmse, mae, r2). (trues, r2))
     (evaluate_model round32 (seq_np_sum round32) (seq_np_mean round32) (\<lambda>w features. features) ()
        [(zeros22, zeros22, ones22)] False)
   = Inr (Matrix [[Fin 1, Fin 1], [Fin 1, Fin 1]], MInf)"
proof -
  have "np_squeeze_batch zeros22 = Matrix zeros22" "np_squeeze_batch ones22 = Matrix ones22"
    by (simp_all add: np_squeeze_batch_def zeros22_def ones22_def)
  moreover have "np_concatenate [Matrix zeros22] = Inr (Matrix zeros22)"
    "np_concatenate [Matrix ones22] = Inr (Matrix ones22)"
    by (simp_all add: np_concatenate_def zeros22_def ones22_def)
  moreover have "arr_map2 (fsub round32) (Matrix zeros22) (Matrix ones22)
      = Inr (Matrix [[Fin (- 1), Fin (- 1)], [Fin (- 1), Fin (- 1)]])"
    by (simp add: arr_map2_def bc_rows_def bc_row_def of_rows_def zeros22_def ones22_def
        fsub_def round32_small)
  moreover have "ss_res_of round32 (seq_np_sum round32)
      (Matrix [[Fin (- 1), Fin (- 1)], [Fin (- 1), Fin (- 1)]]) = Fin 4"
    by (simp add: ss_res_of_def seq_np_sum_def seq_sum_def round32_small)
  moreover have "ss_tot_of round32 (seq_np_sum round32) (seq_np_mean round32) (Matrix ones22)
      = Fin 0"
    by (simp add: ss_tot_of_def seq_np_sum_def seq_np_mean_def seq_mean_def seq_sum_def ones22_def
        fsub_def round32_small)
  moreover have "r2_of round32 (Fin 4) (Fin 0) = MInf"
    by (simp add: r2_of_def fsub_def inf_of_sign_def)
  ultimately show ?thesis
    by (simp add: evaluate_model_def eval_batch_def metrics_of_def Let_def) (simp add: ones22_def)
qed

text \<open>
  A batch of one sample among batches of several: \<open>np.squeeze\<close> makes a vector of it,
  and \<open>np.concatenate\<close> raises \<open>ValueError\<close>, whatever the true values. A single batch of
  one sample of one point is squeezed to a zero-dimensional array, with the same error.
\<close>

lemma evaluate_model_one_sample_batch:
  "evaluate_model rnd np_sum np_mean (\<lambda>w features. features) ()
     [(ones22, zeros22, ones22), ([[Fin 1, Fin 1]], [[Fin 0, Fin 0]], [[Fin 1, Fin 1]])] False
   = Inl ValueError"
  by (simp add: evaluate_model_def eval_batch_def np_squeeze_batch_def np_concatenate_def
      ones22_def)

lemma evaluate_model_one_point:
  "evaluate_model rnd np_sum np_mean (\<lambda>w features. features) ()
     [([[Fin 1]], [[Fin 0]], [[Fin 1]])] False
   = Inl ValueError"
  by (simp add: evaluate_model_def eval_batch_def np_squeeze_batch_def np_concatenate_def)

section \<open>Properties of the cycle extraction\<close>

lemma np_squeeze_sized: "length v \<noteq> 1 \<Longrightarrow> np_squeeze v = OneDim v"
  by (simp add: np_squeeze_def)

lemma spec_row_Some: "(\<exists>r. spec_row battery_id meta num_points i e = Some r) = spec_retained e"
  by (cases e) (simp_all add: spec_retained_def discharge_tagged_def)

lemma spec_row_None: "\<not> spec_retained e \<Longrightarrow> spec_row battery_id meta num_points i e = None"
  using spec_row_Some [of battery_id meta num_points i e] by (cases "spec_row battery_id meta num_points i e") auto

lemma discharge_params_mapping:
  "discharge meta \<noteq> Some NoMapping \<Longrightarrow> discharge_params meta = Inr (params_of meta)"
  by (simp add: discharge_params_def params_of_def split: option.splits discharge_field.splits)

lemma process_cycle_untagged:
  "\<not> discharge_tagged e \<Longrightarrow> process_cycle battery_id meta num_points i e = Inr None"
  by (cases e)
    (auto simp: process_cycle_def discharge_tagged_def Let_def str_lower_def split: option.splits)

lemma process_cycle_tagged:
  assumes "discharge_tagged (Cycle c)" and "c_data c \<noteq> Some NotAStruct"
    and "no_single_sample (Cycle c)" and "discharge meta \<noteq> Some NoMapping"
  shows "process_cycle battery_id meta num_points i (Cycle c) =
           Inr (spec_row battery_id meta num_points i (Cycle c))"
proof -
  let ?dat = "cycle_data c"
  have tag: "str_lower (case c_type c of None \<Rightarrow> [] | Some t \<Rightarrow> t) = ''discharge''"
    using assms(1) by (simp add: discharge_tagged_def split: option.splits)
  have sq: "np_squeeze (get_channel ?dat ''Voltage_measured'' ''voltage'')
        = OneDim (get_channel ?dat ''Voltage_measured'' ''voltage'')"
      "np_squeeze (get_channel ?dat ''Current_measured'' ''current'')
        = OneDim (get_channel ?dat ''Current_measured'' ''current'')"
      "np_squeeze (get_channel ?dat ''Temperature_measured'' ''temperature'')
        = OneDim (get_channel ?dat ''Temperature_measured'' ''temperature'')"
      "np_squeeze (get_channel ?dat ''Time'' ''time'') = OneDim (get_channel ?dat ''Time'' ''time'')"
    using assms(1,3) by (simp_all add: no_single_sample_def entry_channel_def np_squeeze_sized)
  have body: "process_cycle battery_id meta num_points i (Cycle c) =
      (if length (get_channel ?dat ''Voltage_measured'' ''voltage'') < 5 then Inr None
       else if length (get_channel ?dat ''Current_measured'' ''current'') < 5 then Inr None
       else Inr (Some (row_of battery_id meta num_points i c)))"
  proof (cases "c_data c")
    case None
    have cd: "cycle_data c = []" by (simp add: cycle_data_def None)
    show ?thesis
      unfolding cd using sq [unfolded cd]
      by (simp add: process_cycle_def tag Let_def None row_of_def cd
          discharge_params_mapping [OF assms(4)])
  next
    case (Some d)
    then obtain b where b: "c_data c = Some (Struct b)" using assms(2) by (cases d) simp_all
    have cd: "cycle_data c = b" by (simp add: cycle_data_def b)
    show ?thesis
      unfolding cd using sq [unfolded cd]
      by (simp add: process_cycle_def tag Let_def b row_of_def cd
          discharge_params_mapping [OF assms(4)])
  qed
  show ?thesis
    unfolding body using assms(1) by (auto simp: spec_retained_def entry_channel_def)
qed

lemma process_cycle_spec:
  assumes "data_readable e" and "no_single_sample e" and "discharge meta \<noteq> Some NoMapping"
  shows "process_cycle battery_id meta num_points i e =
           Inr (spec_row battery_id meta num_points i e)"
proof (cases "discharge_tagged e")
  case False
  then have "\<not> spec_retained e" by (simp add: spec_retained_def)
  then show ?thesis using False by (simp add: process_cycle_untagged spec_row_None)
next
  case True
  then obtain c where c: "e = Cycle c" by (cases e) (simp_all add: discharge_tagged_def)
  have "c_data c \<noteq> Some NotAStruct" using assms(1) True by (simp add: c data_readable_def)
  then show ?thesis
    unfolding c using True assms(2,3) unfolding c by (intro process_cycle_tagged)
qed

lemma process_cycles_spec:
  assumes "\<forall>e\<in>set cycles. data_readable e \<and> no_single_sample e"
    and "discharge meta \<noteq> Some NoMapping" and "length results < MAX_CYCLES"
  shows "process_cycles battery_id meta num_points i cycles results =
           Inr (take MAX_CYCLES (results @ spec_rows battery_id meta num_points i cycles))"
  using assms(1,3)
proof (induction cycles arbitrary: i results)
  case Nil
  then show ?case by simp
next
  case (Cons e cycles)
  have e: "process_cycle battery_id meta num_points i e =
           Inr (spec_row battery_id meta num_points i e)"
    using Cons.prems(1) assms(2) by (intro process_cycle_spec) simp_all
  have rest: "\<forall>e\<in>set cycles. data_readable e \<and> no_single_sample e"
    using Cons.prems(1) by simp
  show ?case
  proof (cases "spec_row battery_id meta num_points i e")
    case None
    then show ?thesis using Cons.IH [OF rest Cons.prems(2)] e by simp
  next
    case (Some r)
    show ?thesis
    proof (cases "length (results @ [r]) \<ge> MAX_CYCLES")
      case full: True
      then have "MAX_CYCLES - length results = Suc 0" using Cons.prems(2) by simp
      then show ?thesis using Some e full by (simp add: Let_def)
    next
      case notfull: False
      then have "length (results @ [r]) < MAX_CYCLES" by simp
      from Cons.IH [OF rest this, of "i + 1"]
      show ?thesis using Some e notfull by (simp add: Let_def)
    qed
  qed
qed

lemma length_spec_rows:
  "length (spec_rows battery_id meta num_points i cycles) = length (filter spec_retained cycles)"
proof (induction cycles arbitrary: i)
  case Nil
  then show ?case by simp
next
  case (Cons e cycles)
  show ?case
  proof (cases "spec_retained e")
    case True
    then obtain r where "spec_row battery_id meta num_points i e = Some r"
      using spec_row_Some [of battery_id meta num_points i e] by blast
    then show ?thesis using True Cons.IH by simp
  next
    case False
    then show ?thesis using Cons.IH by (simp add: spec_row_None)
  qed
qed

lemma process_battery_spec:
  assumes "base_path (sub_dir meta) battery_id = Loaded cf" and "cf \<noteq> NotIterable"
    and "\<forall>e\<in>set (entries_of cf). data_readable e \<and> no_single_sample e"
    and "discharge meta \<noteq> Some NoMapping"
  shows "process_battery battery_id meta base_path num_points =
           Inr (take MAX_CYCLES (spec_rows battery_id meta num_points 0 (entries_of cf)))"
proof -
  have "process_cycles battery_id meta num_points 0 (entries_of cf) [] =
      Inr (take MAX_CYCLES ([] @ spec_rows battery_id meta num_points 0 (entries_of cf)))"
    using assms(3,4) by (rule process_cycles_spec) (simp add: MAX_CYCLES_def)
  then show ?thesis
    using assms(1,2) by (cases cf) (simp_all add: process_battery_def)
qed

lemma example_cycle_ok:
  "spec_retained (Cycle example_cycle) \<and> no_single_sample (Cycle example_cycle)"
  by (simp add: spec_retained_def no_single_sample_def discharge_tagged_def entry_channel_def
      cycle_data_def
      example_cycle_def get_channel_def str_lower_def ascii_lower_def)

lemma example_cycle_readable: "data_readable (Cycle example_cycle)"
  by (simp add: data_readable_def example_cycle_def)

lemma example_discharge: "discharge example_meta \<noteq> Some NoMapping"
  by (simp add: example_meta_def)

lemma example_usable: "usable example_meta = Some True"
  by (simp add: example_meta_def)

lemma spec_rows_replicate:
  "spec_retained e \<Longrightarrow> length (spec_rows battery_id meta num_points i (replicate n e)) = n"
  by (simp add: length_spec_rows)







text \<open>
  The entries that the amended claim leaves out raise an error that ends the
  extraction: a channel of one sample, a data field that is no struct, a discharge
  entry of the metadata that is no mapping (once an entry passes the length tests), and
  a cycle field that cannot be iterated.
\<close>

lemma single_sample_raises:
  "process_cycle ''B0005'' example_meta 128 0
     (Cycle (example_cycle\<lparr>c_data := Some (Struct [(''Voltage_measured'', [4])])\<rparr>)) = Inl TypeError"
  by (simp add: process_cycle_def example_cycle_def Let_def np_squeeze_def get_channel_def
      str_lower_def ascii_lower_def)

lemma data_not_struct_raises:
  "discharge_tagged (Cycle c) \<Longrightarrow> c_data c = Some NotAStruct \<Longrightarrow>
   process_cycle battery_id meta num_points i (Cycle c) = Inl AttributeError"
  by (simp add: process_cycle_def discharge_tagged_def Let_def split: option.splits)

lemma discharge_no_mapping_raises:
  "process_cycle ''B0005'' (example_meta\<lparr>discharge := Some NoMapping\<rparr>) 128 0 (Cycle example_cycle)
     = Inl AttributeError"
  by (simp add: process_cycle_def example_cycle_def Let_def np_squeeze_def get_channel_def
      str_lower_def ascii_lower_def discharge_params_def)

lemma not_iterable_raises:
  "base_path (sub_dir meta) battery_id = Loaded NotIterable \<Longrightarrow>
   process_battery battery_id meta base_path num_points = Inl TypeError"
  by (simp add: process_battery_def)

section \<open>The global cap\<close>

lemma process_cycles_length:
  assumes "process_cycles battery_id meta num_points i cycles results = Inr rows"
    and "length results < MAX_CYCLES"
  shows "length rows \<le> MAX_CYCLES"
  using assms
proof (induction cycles arbitrary: i results)
  case Nil
  then show ?case by simp
next
  case (Cons e cycles)
  show ?case
  proof (cases "process_cycle battery_id meta num_points i e")
    case (Inl err)
    then show ?thesis using Cons.prems by simp
  next
    case (Inr ro)
    show ?thesis
    proof (cases ro)
      case None
      then have "process_cycles battery_id meta num_points (i + 1) cycles results = Inr rows"
        using Cons.prems(1) Inr by simp
      from Cons.IH [OF this Cons.prems(2)] show ?thesis .
    next
      case (Some r)
      show ?thesis
      proof (cases "length (results @ [r]) \<ge> MAX_CYCLES")
        case True
        then have "rows = results @ [r]" using Cons.prems(1) Inr Some by (simp add: Let_def)
        then show ?thesis using Cons.prems(2) by simp
      next
        case False
        then have "process_cycles battery_id meta num_points (i + 1) cycles (results @ [r]) = Inr rows"
          using Cons.prems(1) Inr Some by (simp add: Let_def)
        from Cons.IH [OF this] False show ?thesis by simp
      qed
    qed
  qed
qed

lemma process_battery_length:
  assumes "process_battery battery_id meta base_path num_points = Inr rows"
  shows "length rows \<le> MAX_CYCLES"
proof (cases "base_path (sub_dir meta) battery_id")
  case NotFound
  then show ?thesis using assms by (simp add: process_battery_def)
next
  case LoadFailed
  then show ?thesis using assms by (simp add: process_battery_def)
next
  case (Loaded cf)
  show ?thesis
  proof (cases cf)
    case NoCycleField
    then show ?thesis using assms Loaded by (simp add: process_battery_def)
  next
    case NotIterable
    then show ?thesis using assms Loaded by (simp add: process_battery_def)
  next
    case (OneCycle c)
    then have "process_cycles battery_id meta num_points 0 [Cycle c] [] = Inr rows"
      using assms Loaded by (simp add: process_battery_def)
    then show ?thesis by (rule process_cycles_length) (simp add: MAX_CYCLES_def)
  next
    case (CycleList cycles)
    then have "process_cycles battery_id meta num_points 0 cycles [] = Inr rows"
      using assms Loaded by (simp add: process_battery_def)
    then show ?thesis by (rule process_cycles_length) (simp add: MAX_CYCLES_def)
  qed
qed

lemma extract_batteries_length:
  assumes "extract_batteries mat_dir num_points max_cycles batteries all_data = Inr rows"
  shows "length rows \<le> max (max_cycles - 1) (length all_data) + MAX_CYCLES"
  using assms
proof (induction batteries arbitrary: all_data)
  case Nil
  then show ?case by simp
next
  case (Cons bm batteries)
  obtain battery_id meta where bm: "bm = (battery_id, meta)" by (cases bm)
  show ?case
  proof (cases "case usable meta of None \<Rightarrow> True | Some u \<Rightarrow> u")
    case False
    then have "extract_batteries mat_dir num_points max_cycles batteries all_data = Inr rows"
      using Cons.prems(1) bm by simp
    from Cons.IH [OF this] show ?thesis .
  next
    case True
    show ?thesis
    proof (cases "process_battery battery_id meta mat_dir num_points")
      case (Inl err)
      then show ?thesis using Cons.prems True bm by simp
    next
      case (Inr data_rows)
      have len: "length data_rows \<le> MAX_CYCLES" using Inr by (rule process_battery_length)
      show ?thesis
      proof (cases "length (all_data @ data_rows) \<ge> max_cycles")
        case full: True
        then have "rows = all_data @ data_rows"
          using Cons.prems(1) True Inr bm by (simp add: Let_def)
        then show ?thesis using len by simp
      next
        case notfull: False
        then have "extract_batteries mat_dir num_points max_cycles batteries (all_data @ data_rows) = Inr rows"
          using Cons.prems(1) True Inr bm by (simp add: Let_def)
        from Cons.IH [OF this] notfull show ?thesis by simp
      qed
    qed
  qed
qed

lemma rows_within_overshoot:
  assumes "preprocess_and_save_csv mat_dir batteries num_points max_cycles = Inr rows"
  shows "length rows \<le> (max_cycles - 1) + MAX_CYCLES"
  using extract_batteries_length [OF assms [unfolded preprocess_and_save_csv_def]] by simp

text \<open>
  C1 fails on the code. With the cap of 1000 cycles that \<open>main\<close> configures and two
  usable batteries of 600 valid discharge cycles each, 1200 rows are written: the
  length test follows the \<open>extend\<close> with all the rows of a battery, and nothing is cut.
\<close>

theorem global_cap_exceeded:
  "map_sum id length
     (preprocess_and_save_csv (\<lambda>d b. Loaded (CycleList (replicate 600 (Cycle example_cycle))))
        [(''B0005'', example_meta), (''B0006'', example_meta)] 128 1000) = Inr 1200"
proof -
  have pb: "process_battery b example_meta
        (\<lambda>d b. Loaded (CycleList (replicate 600 (Cycle example_cycle)))) 128 =
      Inr (take MAX_CYCLES (spec_rows b example_meta 128 0 (replicate 600 (Cycle example_cycle))))"
    for b
    using process_battery_spec [of "\<lambda>d b. Loaded (CycleList (replicate 600 (Cycle example_cycle)))"
        example_meta b "CycleList (replicate 600 (Cycle example_cycle))" 128]
    by (simp add: example_cycle_ok example_cycle_readable example_discharge)
  have usable: "usable example_meta = Some True" by (simp add: example_meta_def)
  show ?thesis
    by (simp add: preprocess_and_save_csv_def pb usable Let_def spec_rows_replicate
        example_cycle_ok MAX_CYCLES_def)
qed

section \<open>The SOC curve of a row\<close>

lemma soc_from_time_unit:
  assumes "time_r \<noteq> []" "0 < last time_r" "\<forall>t\<in>set time_r. 0 \<le> t \<and> t \<le> last time_r"
  shows "\<forall>s\<in>set (soc_from_time time_r). in_unit s"
proof -
  have "in_unit (fl_rsub 1 (np_divide t (last time_r)))" if "t \<in> set time_r" for t
  proof -
    have "0 \<le> t" "t \<le> last time_r" using assms(3) that by auto
    then have "0 \<le> t / last time_r" "t / last time_r \<le> 1" using assms(2) by auto
    then show ?thesis using assms(2) by (simp add: np_divide_def)
  qed
  then show ?thesis using assms(1) by (auto simp: soc_from_time_def Let_def)
qed

lemma length_soc_from_time: "length (soc_from_time time_r) = length time_r"
  by (simp add: soc_from_time_def Let_def)

lemma soc_of_raw_time:
  assumes "ts \<noteq> []" "0 < last ts" "\<forall>t\<in>set ts. 0 \<le> t \<and> t \<le> last ts"
    and "2 \<le> num_points \<or> (length ts = 1 \<and> 1 \<le> num_points)"
  shows "\<forall>s\<in>set (soc_from_time (anchor_resample ts num_points)). in_unit s"
proof -
  let ?r = "anchor_resample ts num_points"
  have len: "length ?r = num_points" by (rule length_anchor_resample)
  have ne: "?r \<noteq> []" using len assms(4) by auto
  have "?r ! (num_points - 1) = ts ! (length ts - 1)"
  proof (cases "length ts = 1")
    case True
    then show ?thesis using assms(4) by (auto simp: anchor_resample_single)
  next
    case False
    then have "2 \<le> length ts" "2 \<le> num_points" using assms(1,4) by (auto simp:
        two_le_length)
    then show ?thesis by (rule anchor_resample_last)
  qed
  then have last: "last ?r = last ts"
    using ne assms(1) len by (simp add: last_conv_nth)
  have "\<forall>v\<in>set ?r. 0 \<le> v \<and> v \<le> last ts"
    using assms(1,3) by (rule anchor_resample_bounds)
  then show ?thesis
    using ne assms(2) last by (intro soc_from_time_unit) auto
qed

lemma make_row_soc:
  "r_soc (make_row b m d i c cap v cu te ti) = soc_from_time ti"
  "r_time (make_row b m d i c cap v cu te ti) = ti"
  by (simp_all add: make_row_def)

lemma resample_array_length:
  "resample_array a n = Inr xs \<Longrightarrow> length xs = n"
  by (cases a) (auto simp: length_anchor_resample)

lemma process_cycle_row:
  assumes "process_cycle battery_id meta num_points i e = Inr (Some r)"
  shows "r_soc r = soc_from_time (r_time r) \<and> length (r_time r) = num_points"
  using assms
  by (auto simp: process_cycle_def Let_def make_row_soc resample_array_length
      split: entry.splits if_splits sum.splits option.splits data_field.splits)

lemma process_cycles_rows:
  assumes "process_cycles battery_id meta num_points i cycles results = Inr rows"
    and "\<forall>r\<in>set results. r_soc r = soc_from_time (r_time r) \<and> length (r_time r) = num_points"
  shows "\<forall>r\<in>set rows. r_soc r = soc_from_time (r_time r) \<and> length (r_time r) = num_points"
  using assms
proof (induction cycles arbitrary: i results)
  case Nil
  then show ?case by simp
next
  case (Cons e cycles)
  show ?case
  proof (cases "process_cycle battery_id meta num_points i e")
    case (Inl err)
    then show ?thesis using Cons.prems by simp
  next
    case (Inr ro)
    show ?thesis
    proof (cases ro)
      case None
      then have "process_cycles battery_id meta num_points (i + 1) cycles results = Inr rows"
        using Cons.prems(1) Inr by simp
      from Cons.IH [OF this Cons.prems(2)] show ?thesis .
    next
      case (Some r)
      have r: "r_soc r = soc_from_time (r_time r) \<and> length (r_time r) = num_points"
        using Inr Some by (intro process_cycle_row [of battery_id meta num_points i e]) simp
      then have all: "\<forall>r\<in>set (results @ [r]).
          r_soc r = soc_from_time (r_time r) \<and> length (r_time r) = num_points"
        using Cons.prems(2) by auto
      show ?thesis
      proof (cases "length (results @ [r]) \<ge> MAX_CYCLES")
        case True
        then have "rows = results @ [r]" using Cons.prems(1) Inr Some by (simp add: Let_def)
        then show ?thesis using all by simp
      next
        case False
        then have "process_cycles battery_id meta num_points (i + 1) cycles (results @ [r]) = Inr rows"
          using Cons.prems(1) Inr Some by (simp add: Let_def)
        from Cons.IH [OF this all] show ?thesis .
      qed
    qed
  qed
qed

lemma process_battery_rows:
  assumes "process_battery battery_id meta base_path num_points = Inr rows"
  shows "\<forall>r\<in>set rows. r_soc r = soc_from_time (r_time r) \<and> length (r_time r) = num_points"
proof (cases "base_path (sub_dir meta) battery_id")
  case NotFound
  then show ?thesis using assms by (simp add: process_battery_def)
next
  case LoadFailed
  then show ?thesis using assms by (simp add: process_battery_def)
next
  case (Loaded cf)
  show ?thesis
  proof (cases cf)
    case NoCycleField
    then show ?thesis using assms Loaded by (simp add: process_battery_def)
  next
    case NotIterable
    then show ?thesis using assms Loaded by (simp add: process_battery_def)
  next
    case (OneCycle c)
    then have "process_cycles battery_id meta num_points 0 [Cycle c] [] = Inr rows"
      using assms Loaded by (simp add: process_battery_def)
    then show ?thesis by (rule process_cycles_rows) simp
  next
    case (CycleList cycles)
    then have "process_cycles battery_id meta num_points 0 cycles [] = Inr rows"
      using assms Loaded by (simp add: process_battery_def)
    then show ?thesis by (rule process_cycles_rows) simp
  qed
qed

lemma extract_batteries_rows:
  assumes "extract_batteries mat_dir num_points max_cycles batteries all_data = Inr rows"
    and "\<forall>r\<in>set all_data. r_soc r = soc_from_time (r_time r) \<and> length (r_time r) = num_points"
  shows "\<forall>r\<in>set rows. r_soc r = soc_from_time (r_time r) \<and> length (r_time r) = num_points"
  using assms
proof (induction batteries arbitrary: all_data)
  case Nil
  then show ?case by simp
next
  case (Cons bm batteries)
  obtain battery_id meta where bm: "bm = (battery_id, meta)" by (cases bm)
  show ?case
  proof (cases "case usable meta of None \<Rightarrow> True | Some u \<Rightarrow> u")
    case False
    then have "extract_batteries mat_dir num_points max_cycles batteries all_data = Inr rows"
      using Cons.prems(1) bm by simp
    from Cons.IH [OF this Cons.prems(2)] show ?thesis .
  next
    case True
    show ?thesis
    proof (cases "process_battery battery_id meta mat_dir num_points")
      case (Inl err)
      then show ?thesis using Cons.prems True bm by simp
    next
      case (Inr data_rows)
      have all: "\<forall>r\<in>set (all_data @ data_rows).
          r_soc r = soc_from_time (r_time r) \<and> length (r_time r) = num_points"
        using Cons.prems(2) process_battery_rows [OF Inr] by auto
      show ?thesis
      proof (cases "length (all_data @ data_rows) \<ge> max_cycles")
        case full: True
        then have "rows = all_data @ data_rows"
          using Cons.prems(1) True Inr bm by (simp add: Let_def)
        then show ?thesis using all by simp
      next
        case notfull: False
        then have "extract_batteries mat_dir num_points max_cycles batteries (all_data @ data_rows) = Inr rows"
          using Cons.prems(1) True Inr bm by (simp add: Let_def)
        from Cons.IH [OF this all] show ?thesis .
      qed
    qed
  qed
qed

text \<open>
  C4, as amended. For every row that the pipeline writes whose resampled time channel
  ends in a positive value and has all its values between 0 and that last value, the SOC
  curve has \<open>num_points\<close> elements and each of them lies in the unit interval.
\<close>

theorem soc_in_unit_interval:
  assumes "preprocess_and_save_csv mat_dir batteries num_points max_cycles = Inr rows"
    and "r \<in> set rows"
    and "r_time r \<noteq> []" and "0 < last (r_time r)"
    and "\<forall>t\<in>set (r_time r). 0 \<le> t \<and> t \<le> last (r_time r)"
  shows "length (r_soc r) = num_points \<and> (\<forall>s\<in>set (r_soc r). in_unit s)"
proof -
  have "\<forall>r\<in>set rows. r_soc r = soc_from_time (r_time r) \<and> length (r_time r) = num_points"
    using assms(1) unfolding preprocess_and_save_csv_def
    by (rule extract_batteries_rows) simp
  then have r: "r_soc r = soc_from_time (r_time r)" "length (r_time r) = num_points"
    using assms(2) by auto
  show ?thesis
    using soc_from_time_unit [OF assms(3-5)] r by (simp add: length_soc_from_time)
qed

lemma one_cycle_rows:
  assumes "spec_retained (Cycle c)" and "no_single_sample (Cycle c)"
    and "usable meta = Some True"
    and "data_readable (Cycle c)" and "discharge meta \<noteq> Some NoMapping"
  shows "preprocess_and_save_csv (\<lambda>d b. Loaded (OneCycle c)) [(battery_id, meta)]
           num_points max_cycles = Inr [row_of battery_id meta num_points 0 c]"
proof -
  have "process_cycles battery_id meta num_points 0 [Cycle c] [] =
      Inr (take MAX_CYCLES ([] @ spec_rows battery_id meta num_points 0 [Cycle c]))"
    by (rule process_cycles_spec) (simp_all add: assms MAX_CYCLES_def)
  then show ?thesis
    by (simp add: preprocess_and_save_csv_def process_battery_def assms MAX_CYCLES_def Let_def)
qed

lemma example_row_time:
  "r_time (row_of ''B0005'' example_meta 2 0 example_cycle) = [0, 4]"
  by (simp add: row_of_def make_row_soc cycle_data_def example_cycle_def get_channel_def
      anchor_resample_def np_linspace_def np_interp_def upt_conv_Cons)

theorem soc_in_unit_interval_witness:
  "preprocess_and_save_csv (\<lambda>d b. Loaded (OneCycle example_cycle)) [(''B0005'', example_meta)] 2 1000
     = Inr [row_of ''B0005'' example_meta 2 0 example_cycle] \<and>
   r_time (row_of ''B0005'' example_meta 2 0 example_cycle) = [0, 4] \<and>
   r_soc (row_of ''B0005'' example_meta 2 0 example_cycle) = [Fin 1, Fin 0] \<and>
   list_all in_unit (r_soc (row_of ''B0005'' example_meta 2 0 example_cycle))"
proof -
  let ?r = "row_of ''B0005'' example_meta 2 0 example_cycle"
  have run: "preprocess_and_save_csv (\<lambda>d b. Loaded (OneCycle example_cycle))
      [(''B0005'', example_meta)] 2 1000 = Inr [?r]"
    using example_cycle_ok example_usable example_cycle_readable example_discharge
    by (intro one_cycle_rows) simp_all
  have soc: "r_soc ?r = [Fin 1, Fin 0]"
    by (simp add: row_of_def make_row_soc soc_from_time_def np_divide_def
        example_row_time [unfolded row_of_def make_row_soc])
  from soc_in_unit_interval [OF run, of ?r] example_row_time
  have "\<forall>s\<in>set (r_soc ?r). in_unit s" by simp
  then show ?thesis using run soc example_row_time by (simp add: list_all_iff)
qed

lemma late_peak_ok:
  "spec_retained (Cycle example_cycle_late_peak) \<and> no_single_sample (Cycle example_cycle_late_peak)
   \<and> data_readable (Cycle example_cycle_late_peak)"
  by (simp add: spec_retained_def no_single_sample_def discharge_tagged_def entry_channel_def
      cycle_data_def example_cycle_def data_readable_def
      example_cycle_late_peak_def get_channel_def str_lower_def ascii_lower_def)

lemma late_peak_soc:
  "r_soc (row_of ''B0005'' example_meta 5 0 example_cycle_late_peak) =
     [Fin 1, Fin (2 / 3), Fin (1 / 3), Fin (- (1 / 3)), Fin 0]"
proof -
  have "anchor_resample [0, 1, 2, 4, 3] 5 = [0, 1, 2, 4, 3]"
    by (simp add: anchor_resample_def np_linspace_def np_interp_def upt_conv_Cons)
  then show ?thesis
    by (simp add: row_of_def make_row_soc cycle_data_def example_cycle_def
        example_cycle_late_peak_def get_channel_def soc_from_time_def np_divide_def)
qed

text \<open>
  C4 as stated fails for a time channel that does not end at its largest value: with
  the times 0, 1, 2, 4, 3 the SOC curve is 1, 2/3, 1/3, -1/3, 0.
\<close>

theorem soc_late_peak_counterexample:
  "map_sum id (map r_soc)
     (preprocess_and_save_csv (\<lambda>d b. Loaded (OneCycle example_cycle_late_peak))
        [(''B0005'', example_meta)] 5 1000) =
     Inr [[Fin 1, Fin (2 / 3), Fin (1 / 3), Fin (- (1 / 3)), Fin 0]] \<and>
   \<not> in_unit (Fin (- (1 / 3)))"
  using late_peak_ok example_usable example_discharge by (simp add: one_cycle_rows late_peak_soc)

lemma missing_time_gives_nan:
  "map_sum id (map r_soc)
     (preprocess_and_save_csv
        (\<lambda>d b. Loaded (OneCycle (example_cycle\<lparr>c_data :=
           Some (Struct [(''Voltage_measured'', [4, 3, 3, 3, 2]),
                         (''Current_measured'', [1, 1, 1, 1, 1])])\<rparr>)))
        [(''B0005'', example_meta)] 2 1000) = Inr [[NaN, NaN]]"
proof -
  let ?c = "example_cycle\<lparr>c_data :=
           Some (Struct [(''Voltage_measured'', [4, 3, 3, 3, 2]),
                         (''Current_measured'', [1, 1, 1, 1, 1])])\<rparr>"
  have ok: "spec_retained (Cycle ?c)" "no_single_sample (Cycle ?c)" "data_readable (Cycle ?c)"
    by (simp_all add: spec_retained_def no_single_sample_def discharge_tagged_def
        entry_channel_def cycle_data_def example_cycle_def data_readable_def
      get_channel_def str_lower_def ascii_lower_def)
  have "r_soc (row_of ''B0005'' example_meta 2 0 ?c) = [NaN, NaN]"
    by (simp add: row_of_def make_row_soc cycle_data_def example_cycle_def get_channel_def
        soc_from_time_def np_divide_def anchor_resample_def np_zeros_def numeral_2_eq_2)
  then show ?thesis
    using ok example_usable example_discharge by (simp add: one_cycle_rows)
qed

end
